theory Spec2Isabelle
  imports Complex_Main
begin

section \<open>Text: characters, trimming, small regular expressions\<close>

text \<open>
  A JavaScript string is modelled as a \<open>string\<close> whose characters are the code units
  below 256. The character classes are the ones the source's regular expressions and
  \<open>String.prototype.trim\<close> use, cut down to that range: \<open>\w\<close> is \<open>[A-Za-z0-9_]\<close>,
  \<open>\d\<close> is \<open>[0-9]\<close>, \<open>\s\<close> (and what \<open>trim\<close> removes) is tab, line feed, vertical tab,
  form feed, carriage return, space and the no-break space; \<open>.\<close> is every character but
  line feed and carriage return.
\<close>

abbreviation (input) backslash :: char where
  "backslash \<equiv> CHR 0x5C"

abbreviation (input) squote :: char where
  "squote \<equiv> CHR 0x27"

abbreviation (input) dquote :: char where
  "dquote \<equiv> CHR 0x22"

definition isDigit :: "char \<Rightarrow> bool" where
  "isDigit c = (c \<in> set ''0123456789'')"

definition isWord :: "char \<Rightarrow> bool" where
  "isWord c = (c \<in> set ''abcdefghijklmnopqrstuvwxyzABCDEFGHIJKLMNOPQRSTUVWXYZ0123456789_'')"

definition isSpace :: "char \<Rightarrow> bool" where
  "isSpace c = (c \<in> set [CHR 0x09, CHR 0x0A, CHR 0x0B, CHR 0x0C, CHR 0x0D, CHR 0x20, CHR 0xA0])"

definition isLineTerminator :: "char \<Rightarrow> bool" where
  "isLineTerminator c = (c = CHR 0x0A \<or> c = CHR 0x0D)"

definition trim :: "string \<Rightarrow> string" where
  "trim s = rev (dropWhile isSpace (rev (dropWhile isSpace s)))"

definition startsWith :: "string \<Rightarrow> string \<Rightarrow> bool" where
  "startsWith s p = (take (length p) s = p)"

definition endsWith :: "string \<Rightarrow> string \<Rightarrow> bool" where
  "endsWith s p = (length p \<le> length s \<and> drop (length s - length p) s = p)"

text \<open>\<open>s.slice(1, -1)\<close>: without the first and the last character; empty when \<open>s\<close> has
  fewer than two characters.\<close>

definition slice_1_m1 :: "string \<Rightarrow> string" where
  "slice_1_m1 s = butlast (drop 1 s)"

text \<open>Case folding of the \<open>i\<close> flag, on the ASCII letters (the patterns hold no other
  letters, and no character outside ASCII folds onto an ASCII letter without the \<open>u\<close> flag).\<close>

definition lower :: "char \<Rightarrow> char" where
  "lower c = (case map_of (zip ''ABCDEFGHIJKLMNOPQRSTUVWXYZ'' ''abcdefghijklmnopqrstuvwxyz'') c of
                Some l \<Rightarrow> l | None \<Rightarrow> c)"

text \<open>
  The deny patterns of \<open>validateSafety\<close> are sequences of single characters and of the classes
  \<open>\s\<close> and \<open>\w\<close> under \<open>*\<close> or \<open>+\<close>, with no anchor. \<open>matches_at\<close> decides whether such a
  sequence matches a prefix of the text (trying every length a starred class can take), and
  \<open>test\<close>, like \<open>RegExp.prototype.test\<close> without the \<open>g\<close> flag, looks for a match at any
  position.
\<close>

datatype atom = Lit char | SpaceCls | WordCls

datatype item = One atom | Star atom | Plus atom

record pattern =
  source :: string
  icase :: bool
  items :: "item list"

fun atom_ok :: "bool \<Rightarrow> atom \<Rightarrow> char \<Rightarrow> bool" where
  "atom_ok ic (Lit x) c = (if ic then lower x = lower c else x = c)"
| "atom_ok ic SpaceCls c = isSpace c"
| "atom_ok ic WordCls c = isWord c"

fun matches_at :: "bool \<Rightarrow> item list \<Rightarrow> string \<Rightarrow> bool" where
  "matches_at ic [] s = True"
| "matches_at ic (One a # r) [] = False"
| "matches_at ic (One a # r) (c # cs) = (if atom_ok ic a c then matches_at ic r cs else False)"
| "matches_at ic (Star a # r) [] = matches_at ic r []"
| "matches_at ic (Star a # r) (c # cs) =
     (if atom_ok ic a c
      then (if matches_at ic (Star a # r) cs then True else matches_at ic r (c # cs))
      else matches_at ic r (c # cs))"
| "matches_at ic (Plus a # r) [] = False"
| "matches_at ic (Plus a # r) (c # cs) =
     (if atom_ok ic a c then matches_at ic (Star a # r) cs else False)"

fun search :: "bool \<Rightarrow> item list \<Rightarrow> string \<Rightarrow> bool" where
  "search ic p [] = matches_at ic p []"
| "search ic p (c # cs) = (if matches_at ic p (c # cs) then True else search ic p cs)"

definition test :: "pattern \<Rightarrow> string \<Rightarrow> bool" where
  "test p s = search (icase p) (items p) s"

definition lits :: "string \<Rightarrow> item list" where
  "lits s = map (\<lambda>c. One (Lit c)) s"

section \<open>Errors\<close>

text \<open>
  One constructor for each \<open>throw\<close> of the source, with the data its message quotes.
  \<open>TypeError\<close> stands for the engine's own error when the code reads a property of
  \<open>null\<close>/\<open>undefined\<close> or calls something that is not callable; \<open>Thrown\<close> is an error
  raised by the function or constructor that was dispatched to. \<open>execute\<close> catches every
  error and throws a new one whose message is \<open>wrap\<close> of the original.

  In the words of the specification: \<open>UnsafePattern\<close> is SecurityViolation,
  \<open>InvalidCommandFormat\<close> is InvalidFormat, \<open>ObjectNotFound\<close>, \<open>PropertyNotFound\<close>,
  \<open>SubPropertyNotFound\<close> and \<open>ClassNotFound\<close> are NotFound, \<open>NotAFunction\<close> is NotCallable,
  \<open>MethodNotAllowed\<close> and \<open>ConstructorNotAllowed\<close> are Forbidden.
\<close>

datatype error =
    UnsafePattern string
  | InvalidCommandFormat
  | ObjectNotFound string
  | PropertyNotFound string string
  | SubPropertyNotFound string
  | NotAFunction string
  | MethodNotAllowed string
  | ConstructorNotAllowed string
  | ClassNotFound string
  | TypeError string
  | Thrown string

fun message :: "error \<Rightarrow> string" where
  "message (UnsafePattern p) = ''Unsafe pattern detected: '' @ p"
| "message InvalidCommandFormat = ''Invalid command format''"
| "message (ObjectNotFound obj) = ''Object '' @ [squote] @ obj @ [squote] @ '' not found''"
| "message (PropertyNotFound p obj) =
     ''Property '' @ [squote] @ p @ [squote] @ '' not found on '' @ obj"
| "message (SubPropertyNotFound p) = ''Property '' @ [squote] @ p @ [squote] @ '' not found''"
| "message (NotAFunction m) = [squote] @ m @ [squote] @ '' is not a function''"
| "message (MethodNotAllowed m) = ''Method '' @ [squote] @ m @ [squote] @ '' is not allowed''"
| "message (ConstructorNotAllowed c) =
     ''Constructor '' @ [squote] @ c @ [squote] @ '' is not allowed''"
| "message (ClassNotFound c) = ''Class '' @ [squote] @ c @ [squote] @ '' not found''"
| "message (TypeError m) = m"
| "message (Thrown m) = m"

definition wrap :: "error \<Rightarrow> string" where
  "wrap e = ''Command execution failed: '' @ message e"

section \<open>The safety validator\<close>

text \<open>The seventeen patterns of \<open>validateSafety\<close>, in the order of the source; \<open>source\<close>
  is what \<open>${pattern}\<close> prints.\<close>

definition dangerous :: "pattern list" where
  "dangerous = [
     \<lparr>source = ''/eval'' @ [backslash] @ ''s*'' @ [backslash] @ ''(/i'', icase = True,
      items = lits ''eval'' @ [Star SpaceCls] @ lits ''(''\<rparr>,
     \<lparr>source = ''/function'' @ [backslash] @ ''s*'' @ [backslash] @ ''(/i'', icase = True,
      items = lits ''function'' @ [Star SpaceCls] @ lits ''(''\<rparr>,
     \<lparr>source = ''/Function'' @ [backslash] @ ''s*'' @ [backslash] @ ''(/i'', icase = True,
      items = lits ''Function'' @ [Star SpaceCls] @ lits ''(''\<rparr>,
     \<lparr>source = ''/new'' @ [backslash] @ ''s+Function/i'', icase = True,
      items = lits ''new'' @ [Plus SpaceCls] @ lits ''Function''\<rparr>,
     \<lparr>source = ''/setTimeout/i'', icase = True, items = lits ''setTimeout''\<rparr>,
     \<lparr>source = ''/setInterval/i'', icase = True, items = lits ''setInterval''\<rparr>,
     \<lparr>source = ''/document'' @ [backslash] @ ''./i'', icase = True, items = lits ''document.''\<rparr>,
     \<lparr>source = ''/window'' @ [backslash] @ ''./i'', icase = True, items = lits ''window.''\<rparr>,
     \<lparr>source = ''/localStorage/i'', icase = True, items = lits ''localStorage''\<rparr>,
     \<lparr>source = ''/sessionStorage/i'', icase = True, items = lits ''sessionStorage''\<rparr>,
     \<lparr>source = ''/fetch'' @ [backslash] @ ''s*'' @ [backslash] @ ''(/i'', icase = True,
      items = lits ''fetch'' @ [Star SpaceCls] @ lits ''(''\<rparr>,
     \<lparr>source = ''/XMLHttpRequest/i'', icase = True, items = lits ''XMLHttpRequest''\<rparr>,
     \<lparr>source = ''/import'' @ [backslash] @ ''s*'' @ [backslash] @ ''(/i'', icase = True,
      items = lits ''import'' @ [Star SpaceCls] @ lits ''(''\<rparr>,
     \<lparr>source = ''/<script/i'', icase = True, items = lits ''<script''\<rparr>,
     \<lparr>source = ''/on'' @ [backslash] @ ''w+'' @ [backslash] @ ''s*=/i'', icase = True,
      items = lits ''on'' @ [Plus WordCls, Star SpaceCls] @ lits ''=''\<rparr>,
     \<lparr>source = ''/javascript:/i'', icase = True, items = lits ''javascript:''\<rparr>,
     \<lparr>source = ''/'' @ [backslash] @ ''$'' @ [backslash] @ ''{/'', icase = False,
      items = lits ''${''\<rparr>]"

text \<open>The loop of \<open>validateSafety\<close>: the first pattern that matches is thrown; \<open>None\<close> is
  the normal return.\<close>

fun first_unsafe :: "pattern list \<Rightarrow> string \<Rightarrow> error option" where
  "first_unsafe [] command = None"
| "first_unsafe (p # ps) command =
     (if test p command then Some (UnsafePattern (source p)) else first_unsafe ps command)"

definition validateSafety :: "string \<Rightarrow> error option" where
  "validateSafety command = first_unsafe dangerous command"

section \<open>Values\<close>

text \<open>
  Numbers: a JavaScript number is a binary64 float. Rounding is not modelled: a finite number
  is the rational its decimal (or hexadecimal, octal, binary) text writes, so \<open>-0\<close> is \<open>0\<close>
  and no finite text overflows to infinity. No claim below depends on the digits of a number.
\<close>

datatype jsnum = Fin rat | NaN | PosInf | NegInf

text \<open>A \<open>Date\<close> is kept as the constructor call that made it: \<open>new Date()\<close>,
  \<open>new Date(text)\<close> or \<open>new Date(number)\<close>.\<close>

datatype jsdate = DateNow | DateOfString string | DateOfNumber jsnum

text \<open>
  \<open>VObject\<close> lists the own enumerable properties of an object in the order
  \<open>Object.entries\<close> gives them; \<open>VFunction f\<close> is the function (or class) with identity \<open>f\<close>.
\<close>

datatype jsval =
    VNull
  | VUndefined
  | VBool bool
  | VNumber jsnum
  | VString string
  | VDate jsdate
  | VObject "(string \<times> jsval) list"
  | VArray "jsval list"
  | VFunction nat

text \<open>What \<open>if (!v)\<close> tests.\<close>

fun truthy :: "jsval \<Rightarrow> bool" where
  "truthy VNull = False"
| "truthy VUndefined = False"
| "truthy (VBool b) = b"
| "truthy (VNumber n) = (n \<noteq> NaN \<and> n \<noteq> Fin 0)"
| "truthy (VString s) = (s \<noteq> [])"
| "truthy v = True"

text \<open>
  The part of the JavaScript engine and of the caller's object graph that the interpreter
  reads but does not define: the clock, the properties a value has beyond the entries of a
  mapping (prototype members, the built-in properties of arrays, strings, functions and
  dates; \<open>VUndefined\<close> when there is none), and what calling or constructing the function
  with a given identity does: \<open>Inl m\<close> when it throws an error with message \<open>m\<close>, \<open>Inr v\<close>
  when it returns \<open>v\<close>. Property reads are assumed free of side effects (no getters).
\<close>

record runtime =
  now :: nat
  inherited :: "jsval \<Rightarrow> string \<Rightarrow> jsval"
  invoke :: "nat \<Rightarrow> jsval \<Rightarrow> jsval list \<Rightarrow> string + jsval"
  construct :: "nat \<Rightarrow> jsval list \<Rightarrow> string + jsval"

text \<open>Every call or construction the interpreter performs is logged.\<close>

datatype call = Call nat jsval "jsval list" | New nat "jsval list"

text \<open>\<open>v[k]\<close>: a \<open>TypeError\<close> on \<open>null\<close> and \<open>undefined\<close>, the entry of a mapping when it has
  one, else what the engine finds.\<close>

fun getProp :: "runtime \<Rightarrow> jsval \<Rightarrow> string \<Rightarrow> error + jsval" where
  "getProp rt VNull k = Inl (TypeError (''Cannot read properties of null (reading '' @ [squote] @ k @ [squote] @ '')''))"
| "getProp rt VUndefined k = Inl (TypeError (''Cannot read properties of undefined (reading '' @ [squote] @ k @ [squote] @ '')''))"
| "getProp rt (VObject kvs) k =
     (case map_of kvs k of Some v \<Rightarrow> Inr v | None \<Rightarrow> Inr (inherited rt (VObject kvs) k))"
| "getProp rt v k = Inr (inherited rt v k)"

subsection \<open>Decimal text\<close>

definition digit_val :: "char \<Rightarrow> int" where
  "digit_val c = of_char c - 48"

definition digits_val :: "string \<Rightarrow> int" where
  "digits_val s = foldl (\<lambda>n c. 10 * n + digit_val c) 0 s"

fun show_nat :: "nat \<Rightarrow> string" where
  "show_nat n = (if n < 10 then [char_of (48 + n)] else show_nat (n div 10) @ [char_of (48 + n mod 10)])"

declare show_nat.simps [simp del]

text \<open>The value of \<open>ip.fp\<close> times ten to the \<open>e\<close>.\<close>

definition decimal_value :: "string \<Rightarrow> string \<Rightarrow> int \<Rightarrow> rat" where
  "decimal_value ip fp e =
     (let m = of_int (digits_val (ip @ fp)); x = e - int (length fp)
      in if 0 \<le> x then m * 10 ^ nat x else m / 10 ^ nat (- x))"

subsection \<open>Mappings in property order\<close>

text \<open>
  An array index is the canonical decimal text of a number below \<open>2^32 - 1\<close>. An object
  lists its array-index keys first, in ascending order, then its other keys in the order
  they were created; writing an existing key keeps its place.
\<close>

definition is_array_index :: "string \<Rightarrow> bool" where
  "is_array_index k =
     (k \<noteq> [] \<and> list_all isDigit k \<and> (k = ''0'' \<or> hd k \<noteq> CHR ''0'') \<and> digits_val k < 4294967295)"

fun replace_entry :: "string \<Rightarrow> 'v \<Rightarrow> (string \<times> 'v) list \<Rightarrow> (string \<times> 'v) list" where
  "replace_entry k v [] = []"
| "replace_entry k v ((k', v') # kvs) =
     (if k' = k then (k, v) # kvs else (k', v') # replace_entry k v kvs)"

fun insert_index :: "string \<Rightarrow> 'v \<Rightarrow> (string \<times> 'v) list \<Rightarrow> (string \<times> 'v) list" where
  "insert_index k v [] = [(k, v)]"
| "insert_index k v ((k', v') # kvs) =
     (if is_array_index k' \<and> digits_val k' < digits_val k
      then (k', v') # insert_index k v kvs
      else (k, v) # (k', v') # kvs)"

text \<open>Creating or overwriting the own data property \<open>k\<close>.\<close>

definition define_prop :: "(string \<times> 'v) list \<Rightarrow> string \<Rightarrow> 'v \<Rightarrow> (string \<times> 'v) list" where
  "define_prop kvs k v =
     (if k \<in> set (map fst kvs) then replace_entry k v kvs
      else if is_array_index k then insert_index k v kvs
      else kvs @ [(k, v)])"

text \<open>
  The assignment \<open>obj[k] = v\<close> on an object literal. Assigning to \<open>__proto__\<close> runs the
  prototype setter of \<open>Object.prototype\<close> and creates no entry (that the prototype of
  \<open>obj\<close> changes when \<open>v\<close> is an object is not represented).
\<close>

definition assign_prop :: "(string \<times> 'v) list \<Rightarrow> string \<Rightarrow> 'v \<Rightarrow> (string \<times> 'v) list" where
  "assign_prop kvs k v = (if k = ''__proto__'' then kvs else define_prop kvs k v)"

section \<open>\<open>JSON.parse\<close>\<close>

text \<open>
  The built-in decoder the coercer calls, after the JSON grammar of ECMA-404: \<open>None\<close> is
  the \<open>SyntaxError\<close>. Objects keep the last value of a repeated key. A \<open>\u\<close> escape that
  names a code unit above 255 has no counterpart among the characters of the model and is
  read as its low byte; which texts decode and which fail is not affected.
\<close>

definition json_ws :: "string \<Rightarrow> string" where
  "json_ws s = dropWhile (\<lambda>c. c \<in> set [CHR 0x20, CHR 0x09, CHR 0x0A, CHR 0x0D]) s"

definition isHex :: "char \<Rightarrow> bool" where
  "isHex c = (c \<in> set ''0123456789abcdefABCDEF'')"

definition hex_val :: "char \<Rightarrow> int" where
  "hex_val c = (case map_of (zip ''0123456789abcdefABCDEF''
                   [0, 1, 2, 3, 4, 5, 6, 7, 8, 9, 10, 11, 12, 13, 14, 15, 10, 11, 12, 13, 14, 15]) c of
                  Some v \<Rightarrow> v | None \<Rightarrow> 0)"

definition hexs_val :: "string \<Rightarrow> int" where
  "hexs_val s = foldl (\<lambda>n c. 16 * n + hex_val c) 0 s"

definition json_escape :: "char \<Rightarrow> char option" where
  "json_escape e = map_of [(dquote, dquote), (backslash, backslash), (CHR ''/'', CHR ''/''),
     (CHR ''b'', CHR 0x08), (CHR ''f'', CHR 0x0C), (CHR ''n'', CHR 0x0A), (CHR ''r'', CHR 0x0D),
     (CHR ''t'', CHR 0x09)] e"

text \<open>The characters of a string after its opening quote: the decoded text and what follows
  the closing quote.\<close>

function json_chars :: "string \<Rightarrow> string \<Rightarrow> (string \<times> string) option" where
  "json_chars acc [] = None"
| "json_chars acc (c # cs) =
     (if c = dquote then Some (rev acc, cs)
      else if c = backslash then
        (case cs of
           [] \<Rightarrow> None
         | e # r \<Rightarrow>
            (if e = CHR ''u'' then
               (if 4 \<le> length r \<and> list_all isHex (take 4 r)
                then json_chars (char_of (hexs_val (take 4 r)) # acc) (drop 4 r)
                else None)
             else (case json_escape e of
                     Some x \<Rightarrow> json_chars (x # acc) r
                   | None \<Rightarrow> None)))
      else if (of_char c :: int) < 32 then None
      else json_chars (c # acc) cs)"
  by pat_completeness auto
termination
  by (relation "measure (\<lambda>(acc, s). length s)") auto

text \<open>A number token: \<open>-? (0 | [1-9] digit*) (. digit+)? ([eE] [+-]? digit+)?\<close>.\<close>

definition exponent_part :: "string \<Rightarrow> (int \<times> string) option" where
  "exponent_part s =
     (case s of
        [] \<Rightarrow> Some (0, s)
      | c # cs \<Rightarrow>
         (if c = CHR ''e'' \<or> c = CHR ''E'' then
            (let neg = (case cs of [] \<Rightarrow> False | g # _ \<Rightarrow> g = CHR ''-'');
                 ds = (case cs of [] \<Rightarrow> [] | g # r \<Rightarrow> (if g = CHR ''+'' \<or> g = CHR ''-'' then r else cs));
                 e = takeWhile isDigit ds
             in if e = [] then None
                else Some ((if neg then - digits_val e else digits_val e), dropWhile isDigit ds))
          else Some (0, s)))"

definition json_fraction :: "string \<Rightarrow> (string \<times> string) option" where
  "json_fraction s =
     (case s of
        [] \<Rightarrow> Some ([], s)
      | c # cs \<Rightarrow>
         (if c = CHR ''.'' then
            (if takeWhile isDigit cs = [] then None
             else Some (takeWhile isDigit cs, dropWhile isDigit cs))
          else Some ([], s)))"

definition json_unsigned :: "string \<Rightarrow> (rat \<times> string) option" where
  "json_unsigned s =
     (let ip = takeWhile isDigit s
      in if ip = [] \<or> (1 < length ip \<and> hd ip = CHR ''0'') then None
         else (case json_fraction (dropWhile isDigit s) of
                 None \<Rightarrow> None
               | Some (fp, r) \<Rightarrow>
                  (case exponent_part r of
                     None \<Rightarrow> None
                   | Some (e, r') \<Rightarrow> Some (decimal_value ip fp e, r'))))"

definition json_number :: "string \<Rightarrow> (jsnum \<times> string) option" where
  "json_number s =
     (case s of
        [] \<Rightarrow> None
      | c # cs \<Rightarrow>
         (if c = CHR ''-'' then map_option (\<lambda>(x, r). (Fin (- x), r)) (json_unsigned cs)
          else map_option (\<lambda>(x, r). (Fin x, r)) (json_unsigned s)))"

text \<open>
  Values, array elements and object members by recursive descent. Each of \<open>json_elements\<close>
  and \<open>json_members\<close> goes on only with a rest shorter than the text it was given; a decoded
  value always leaves such a rest (\<open>json_shorter\<close> below), so the test never fails and
  serves the termination proof alone.
\<close>

function json_value :: "string \<Rightarrow> (jsval \<times> string) option"
  and json_elements :: "jsval list \<Rightarrow> string \<Rightarrow> (jsval \<times> string) option"
  and json_members :: "(string \<times> jsval) list \<Rightarrow> string \<Rightarrow> (jsval \<times> string) option" where
  "json_value s =
     (case json_ws s of
        [] \<Rightarrow> None
      | c # cs \<Rightarrow>
         (if c = CHR ''{'' then
            (case json_ws cs of
               [] \<Rightarrow> None
             | d # r \<Rightarrow> (if d = CHR ''}'' then Some (VObject [], r) else json_members [] cs))
          else if c = CHR ''['' then
            (case json_ws cs of
               [] \<Rightarrow> None
             | d # r \<Rightarrow> (if d = CHR '']'' then Some (VArray [], r) else json_elements [] cs))
          else if c = dquote then map_option (\<lambda>(t, r). (VString t, r)) (json_chars [] cs)
          else if startsWith (c # cs) ''true'' then Some (VBool True, drop 4 (c # cs))
          else if startsWith (c # cs) ''false'' then Some (VBool False, drop 5 (c # cs))
          else if startsWith (c # cs) ''null'' then Some (VNull, drop 4 (c # cs))
          else map_option (\<lambda>(n, r). (VNumber n, r)) (json_number (c # cs))))"
| "json_elements acc s =
     (case json_value s of
        None \<Rightarrow> None
      | Some (v, r) \<Rightarrow>
         (if length r < length s then
            (case json_ws r of
               [] \<Rightarrow> None
             | d # r' \<Rightarrow>
                (if d = CHR '','' then json_elements (acc @ [v]) r'
                 else if d = CHR '']'' then Some (VArray (acc @ [v]), r')
                 else None))
          else None))"
| "json_members acc s =
     (case json_ws s of
        [] \<Rightarrow> None
      | q # cs \<Rightarrow>
         (if q = dquote then
            (case json_chars [] cs of
               None \<Rightarrow> None
             | Some (k, r) \<Rightarrow>
                (case json_ws r of
                   [] \<Rightarrow> None
                 | d # r' \<Rightarrow>
                    (if d = CHR '':'' \<and> length r' < length s then
                       (case json_value r' of
                          None \<Rightarrow> None
                        | Some (v, r'') \<Rightarrow>
                           (if length r'' < length r' then
                              (case json_ws r'' of
                                 [] \<Rightarrow> None
                               | d' # t \<Rightarrow>
                                  (if d' = CHR '','' then json_members (define_prop acc k v) t
                                   else if d' = CHR ''}'' then Some (VObject (define_prop acc k v), t)
                                   else None))
                            else None))
                     else None)))
          else None))"
  by pat_completeness auto
termination
proof (relation "measure (\<lambda>x. case x of
           Inl s \<Rightarrow> 2 * length s
         | Inr (Inl (acc, s)) \<Rightarrow> 2 * length s + 1
         | Inr (Inr (acc, s)) \<Rightarrow> 2 * length s + 1)", goal_cases)
  case 1
  show ?case by simp
next
  case (2 s c cs d r)
  have "length (json_ws s) \<le> length s"
    unfolding json_ws_def by (rule length_dropWhile_le)
  with 2 show ?case by simp
next
  case (3 s c cs d r)
  have "length (json_ws s) \<le> length s"
    unfolding json_ws_def by (rule length_dropWhile_le)
  with 3 show ?case by simp
next
  case (4 acc s)
  show ?case by simp
next
  case (5 acc s x v r d r')
  have "length (json_ws r) \<le> length r"
    unfolding json_ws_def by (rule length_dropWhile_le)
  with 5 show ?case by simp
next
  case (6 acc s q cs x k r d r')
  then show ?case by simp
next
  case (7 acc s q cs x k r d r' y v r'' d' t)
  have "length (json_ws r'') \<le> length r''"
    unfolding json_ws_def by (rule length_dropWhile_le)
  with 7 show ?case by simp
qed

declare json_value.simps [simp del] json_elements.simps [simp del] json_members.simps [simp del]

definition JSON_parse :: "string \<Rightarrow> jsval option" where
  "JSON_parse s =
     (case json_value s of
        None \<Rightarrow> None
      | Some (v, r) \<Rightarrow> (if json_ws r = [] then Some v else None))"

section \<open>The value coercer\<close>

subsection \<open>\<open>Number(text)\<close>\<close>

text \<open>
  The conversion of a string to a number: surrounding white space is dropped, the empty
  text is \<open>0\<close>, then an unsigned hexadecimal, octal or binary integer or a signed decimal
  (\<open>Infinity\<close>, digits with an optional fraction and exponent); anything else is \<open>NaN\<close>.
\<close>

definition unsigned_decimal :: "string \<Rightarrow> jsnum" where
  "unsigned_decimal s =
     (if s = ''Infinity'' then PosInf
      else
        (let ip = takeWhile isDigit s;
             r = dropWhile isDigit s;
             fp = (case r of [] \<Rightarrow> [] | d # t \<Rightarrow> (if d = CHR ''.'' then takeWhile isDigit t else []));
             r1 = (case r of [] \<Rightarrow> [] | d # t \<Rightarrow> (if d = CHR ''.'' then dropWhile isDigit t else r))
         in if ip = [] \<and> fp = [] then NaN
            else (case exponent_part r1 of
                    None \<Rightarrow> NaN
                  | Some (e, rest) \<Rightarrow> (if rest = [] then Fin (decimal_value ip fp e) else NaN))))"

fun negate :: "jsnum \<Rightarrow> jsnum" where
  "negate (Fin x) = Fin (- x)"
| "negate NaN = NaN"
| "negate PosInf = NegInf"
| "negate NegInf = PosInf"

definition radix_literal :: "int \<Rightarrow> string \<Rightarrow> string \<Rightarrow> jsnum" where
  "radix_literal b ds s =
     (if s \<noteq> [] \<and> list_all (\<lambda>c. c \<in> set ds) s
      then Fin (of_int (foldl (\<lambda>n c. b * n + hex_val c) 0 s))
      else NaN)"

definition StringToNumber :: "string \<Rightarrow> jsnum" where
  "StringToNumber s =
     (let t = trim s
      in if t = [] then Fin 0
         else if startsWith t ''0x'' \<or> startsWith t ''0X''
           then radix_literal 16 ''0123456789abcdefABCDEF'' (drop 2 t)
         else if startsWith t ''0o'' \<or> startsWith t ''0O''
           then radix_literal 8 ''01234567'' (drop 2 t)
         else if startsWith t ''0b'' \<or> startsWith t ''0B''
           then radix_literal 2 ''01'' (drop 2 t)
         else if startsWith t ''+'' then unsigned_decimal (drop 1 t)
         else if startsWith t ''-'' then negate (unsigned_decimal (drop 1 t))
         else unsigned_decimal t)"

text \<open>The test \<open>/^-?\d+(\.\d+)?$/\<close>.\<close>

definition is_number_literal :: "string \<Rightarrow> bool" where
  "is_number_literal s =
     (let u = (if startsWith s ''-'' then drop 1 s else s);
          r = dropWhile isDigit u
      in takeWhile isDigit u \<noteq> [] \<and>
         (r = [] \<or> (startsWith r ''.'' \<and> drop 1 r \<noteq> [] \<and> list_all isDigit (drop 1 r))))"

subsection \<open>Text replacement\<close>

text \<open>\<open>.replace(/\\q/g, q)\<close> for a quote character \<open>q\<close>: every backslash followed by \<open>q\<close>
  becomes \<open>q\<close>.\<close>

fun unescape :: "char \<Rightarrow> string \<Rightarrow> string" where
  "unescape q (a # b # cs) =
     (if a = backslash \<and> b = q then q # unescape q cs else a # unescape q (b # cs))"
| "unescape q cs = cs"

text \<open>\<open>.replace(/'/g, '"')\<close>.\<close>

definition replace_squotes :: "string \<Rightarrow> string" where
  "replace_squotes s = map (\<lambda>c. if c = squote then dquote else c) s"

text \<open>
  \<open>.replace(/(\w+):/g, '"$1":')\<close>. A match can only start at the first character of a run
  of word characters and takes the whole run (a shorter one is followed by a word character,
  not by the colon), so the text is read run by run.
\<close>

function quote_keys :: "string \<Rightarrow> string" where
  "quote_keys [] = []"
| "quote_keys (c # cs) =
     (if isWord c then
        (case dropWhile isWord cs of
           [] \<Rightarrow> c # takeWhile isWord cs
         | d # r \<Rightarrow>
            (if d = CHR '':''
             then [dquote] @ (c # takeWhile isWord cs) @ [dquote, CHR '':''] @ quote_keys r
             else (c # takeWhile isWord cs) @ quote_keys (d # r)))
      else c # quote_keys cs)"
  by pat_completeness auto
termination
proof (relation "measure length", goal_cases)
  case 1
  show ?case by simp
next
  case (2 c cs d r)
  have "length (dropWhile isWord cs) \<le> length cs" by (rule length_dropWhile_le)
  with 2 show ?case by simp
next
  case (3 c cs d r)
  have "length (dropWhile isWord cs) \<le> length cs" by (rule length_dropWhile_le)
  with 3 show ?case by simp
next
  case (4 c cs)
  show ?case by simp
qed

text \<open>
  The pairs of \<open>parseObject\<close>: the matches of \<open>/(\w+)\s*:\s*([^,]+)/g\<close> in the text between
  the braces, each split at its colons, the first two parts trimmed. A match is a run of
  word characters, white space, a colon and every character up to the next comma (at least
  one); the first part of the split is the run with its white space, the second what stands
  between the first colon and the second, if any.
\<close>

function object_pairs :: "string \<Rightarrow> (string \<times> string) list" where
  "object_pairs [] = []"
| "object_pairs (c # cs) =
     (if isWord c then
        (case dropWhile isSpace (dropWhile isWord cs) of
           [] \<Rightarrow> object_pairs (dropWhile isWord cs)
         | d # r \<Rightarrow>
            (if d = CHR '':'' \<and> takeWhile (\<lambda>x. x \<noteq> CHR '','') r \<noteq> []
             then (trim ((c # takeWhile isWord cs) @ takeWhile isSpace (dropWhile isWord cs)),
                   trim (takeWhile (\<lambda>x. x \<noteq> CHR '':'') (takeWhile (\<lambda>x. x \<noteq> CHR '','') r)))
                  # object_pairs (dropWhile (\<lambda>x. x \<noteq> CHR '','') r)
             else object_pairs (dropWhile isWord cs)))
      else object_pairs cs)"
  by pat_completeness auto
termination
proof (relation "measure length", goal_cases)
  case 1
  show ?case by simp
next
  case (2 c cs)
  have "length (dropWhile isWord cs) \<le> length cs" by (rule length_dropWhile_le)
  then show ?case by simp
next
  case (3 c cs d r)
  have "length (dropWhile isSpace (dropWhile isWord cs)) \<le> length cs"
    by (meson le_trans length_dropWhile_le)
  moreover have "length (dropWhile (\<lambda>x. x \<noteq> CHR '','') r) \<le> length r"
    by (rule length_dropWhile_le)
  ultimately show ?case using 3 by simp
next
  case (4 c cs d r)
  have "length (dropWhile isWord cs) \<le> length cs" by (rule length_dropWhile_le)
  then show ?case by simp
next
  case (5 c cs)
  show ?case by simp
qed


subsection \<open>Dates\<close>

fun includes_str :: "string \<Rightarrow> string \<Rightarrow> bool" where
  "includes_str [] p = (p = [])"
| "includes_str (c # cs) p = (if startsWith (c # cs) p then True else includes_str cs p)"

text \<open>\<open>.replace(/Date\.now\(\)/g, n)\<close>, for the ten characters \<open>Date.now()\<close>.\<close>

function replace_now :: "string \<Rightarrow> string \<Rightarrow> string" where
  "replace_now n [] = []"
| "replace_now n (c # cs) =
     (if startsWith (c # cs) ''Date.now()'' then n @ replace_now n (drop 9 cs)
      else c # replace_now n cs)"
  by pat_completeness auto
termination
  by (relation "measure (\<lambda>(n, s). length s)") auto

text \<open>The match \<open>/^(\d+)\s*([\+\-])\s*(\d+)$/\<close>: left operand, whether the sign is \<open>+\<close>,
  right operand.\<close>

definition now_offset :: "string \<Rightarrow> (int \<times> bool \<times> int) option" where
  "now_offset e =
     (let l = takeWhile isDigit e;
          r = dropWhile isSpace (dropWhile isDigit e);
          d = dropWhile isSpace (drop 1 r)
      in if l \<noteq> [] \<and> (startsWith r ''+'' \<or> startsWith r ''-'') \<and> d \<noteq> [] \<and> list_all isDigit d
         then Some (digits_val l, startsWith r ''+'', digits_val d)
         else None)"

text \<open>The branch of \<open>parseValue\<close> for a text that starts with \<open>new Date(\<close>.\<close>

definition parseDate :: "runtime \<Rightarrow> string \<Rightarrow> jsval" where
  "parseDate rt v =
     (let dateArg = butlast (drop 9 v)
      in if dateArg = [] then VDate DateNow
         else if startsWith dateArg [dquote] \<or> startsWith dateArg [squote]
           then VDate (DateOfString (slice_1_m1 dateArg))
         else if StringToNumber dateArg \<noteq> NaN then VDate (DateOfNumber (StringToNumber dateArg))
         else (case (if includes_str dateArg ''Date.now()''
                     then now_offset (replace_now (show_nat (now rt)) dateArg) else None) of
                 Some (l, isPlus, r) \<Rightarrow>
                   VDate (DateOfNumber (Fin (of_int (if isPlus then l + r else l - r))))
               | None \<Rightarrow> VDate (DateOfString dateArg)))"

subsection \<open>\<open>parseValue\<close> and \<open>parseObject\<close>\<close>

text \<open>
  The branches of \<open>parseValue\<close> in the order of the source. \<open>parseObject\<close> is the fallback
  for a text in braces that \<open>JSON.parse\<close> rejects; it calls \<open>parseValue\<close> on each value
  text, which is shorter than the text in braces.
\<close>

function parseValue :: "runtime \<Rightarrow> string \<Rightarrow> jsval"
  and parseObject :: "runtime \<Rightarrow> string \<Rightarrow> jsval" where
  "parseValue rt v =
     (if v = ''null'' then VNull
      else if v = ''undefined'' then VUndefined
      else if v = ''true'' then VBool True
      else if v = ''false'' then VBool False
      else if (startsWith v [dquote] \<and> endsWith v [dquote]) \<or>
              (startsWith v [squote] \<and> endsWith v [squote])
        then VString (unescape squote (unescape dquote (slice_1_m1 v)))
      else if is_number_literal v then VNumber (StringToNumber v)
      else if startsWith v ''new Date('' then parseDate rt v
      else if startsWith v ''{'' then
        (case JSON_parse (replace_squotes (quote_keys v)) of
           Some x \<Rightarrow> x
         | None \<Rightarrow> parseObject rt v)
      else if startsWith v ''['' then
        (case JSON_parse (replace_squotes v) of
           Some x \<Rightarrow> x
         | None \<Rightarrow> VArray [])
      else VString v)"
| "parseObject rt objString =
     VObject (foldl (\<lambda>obj kv. assign_prop obj (fst kv) (parseValue rt (snd kv))) []
                (object_pairs (slice_1_m1 objString)))"
  by pat_completeness auto
termination
proof (relation "measure (\<lambda>x. case x of
           Inl (rt, v) \<Rightarrow> 2 * length v + 1
         | Inr (rt, s) \<Rightarrow> 2 * length s)", goal_cases)
  case 1
  show ?case by simp
next
  case (2 rt v)
  show ?case by simp
next
  case (3 rt objString obj kv)
  have trim_le: "length (trim t) \<le> length t" for t
    unfolding trim_def by (metis le_trans length_dropWhile_le length_rev)
  have pairs_le: "kv \<in> set (object_pairs c) \<Longrightarrow> length (snd kv) \<le> length c" for c
  proof (induction c rule: object_pairs.induct)
    case 1
    then show ?case by simp
  next
    case (2 c cs)
    let ?r = "dropWhile isSpace (dropWhile isWord cs)"
    have r_le: "length ?r \<le> length cs"
      by (meson le_trans length_dropWhile_le)
    show ?case
    proof (cases "isWord c")
      case False
      with "2.IH"(4) "2.prems" show ?thesis by (auto simp: le_SucI)
    next
      case w: True
      show ?thesis
      proof (cases ?r)
        case Nil
        with "2.IH"(1) "2.prems" w have "length (snd kv) \<le> length (dropWhile isWord cs)" by simp
        moreover have "length (dropWhile isWord cs) \<le> length cs" by (rule length_dropWhile_le)
        ultimately show ?thesis by simp
      next
        case (Cons d r)
        have r_lt: "length r < length cs" using r_le Cons by simp
        show ?thesis
        proof (cases "d = CHR '':'' \<and> takeWhile (\<lambda>x. x \<noteq> CHR '','') r \<noteq> []")
          case False
          with "2.IH"(3) "2.prems" w Cons have "length (snd kv) \<le> length (dropWhile isWord cs)" by auto
          moreover have "length (dropWhile isWord cs) \<le> length cs" by (rule length_dropWhile_le)
          ultimately show ?thesis by simp
        next
          case True
          from "2.prems" w Cons True
          consider "snd kv = trim (takeWhile (\<lambda>x. x \<noteq> CHR '':'') (takeWhile (\<lambda>x. x \<noteq> CHR '','') r))"
            | "kv \<in> set (object_pairs (dropWhile (\<lambda>x. x \<noteq> CHR '','') r))"
            by auto
          then show ?thesis
          proof cases
            case 1
            have "length (snd kv) \<le> length (takeWhile (\<lambda>x. x \<noteq> CHR '':'') (takeWhile (\<lambda>x. x \<noteq> CHR '','') r))"
              unfolding 1 by (rule trim_le)
            also have "\<dots> \<le> length r"
              by (meson le_trans length_takeWhile_le)
            finally show ?thesis using r_lt by simp
          next
            case 2
            with "2.IH"(2) w Cons True
            have "length (snd kv) \<le> length (dropWhile (\<lambda>x. x \<noteq> CHR '','') r)" by blast
            also have "\<dots> \<le> length r" by (rule length_dropWhile_le)
            finally show ?thesis using r_lt by simp
          qed
        qed
      qed
    qed
  qed
  have "length (slice_1_m1 objString) < length objString \<or> objString = []"
    by (cases objString) (simp_all add: slice_1_m1_def)
  moreover have "objString \<noteq> []" using 3 by (auto simp: slice_1_m1_def)
  moreover have "length (snd kv) \<le> length (slice_1_m1 objString)" using 3 pairs_le by blast
  ultimately show ?case by simp
qed

declare parseValue.simps [simp del] parseObject.simps [simp del]

section \<open>The argument lexer\<close>

text \<open>
  The state of the loop of \<open>parseArguments\<close>. \<open>stringChar\<close> is the empty text or the one
  quote character that opened the string the scan is in; \<open>depth\<close> may go below zero.
\<close>

record lexstate =
  args :: "jsval list"
  current :: string
  depth :: int
  inString :: bool
  stringChar :: string

text \<open>One turn of the loop on the character \<open>c\<close>; \<open>prev\<close> is \<open>argsString[i - 1]\<close>, absent
  at the first character.\<close>

definition lex_step :: "runtime \<Rightarrow> char option \<Rightarrow> char \<Rightarrow> lexstate \<Rightarrow> lexstate" where
  "lex_step rt prev c st =
     (if \<not> inString st then
        (if c = dquote \<or> c = squote
           then st\<lparr>inString := True, stringChar := [c], current := current st @ [c]\<rparr>
         else if c = CHR ''{'' \<or> c = CHR ''['' \<or> c = CHR ''(''
           then st\<lparr>depth := depth st + 1, current := current st @ [c]\<rparr>
         else if c = CHR ''}'' \<or> c = CHR '']'' \<or> c = CHR '')''
           then st\<lparr>depth := depth st - 1, current := current st @ [c]\<rparr>
         else if c = CHR '','' \<and> depth st = 0
           then st\<lparr>args := args st @ [parseValue rt (trim (current st))], current := []\<rparr>
         else st\<lparr>current := current st @ [c]\<rparr>)
      else
        (if [c] = stringChar st \<and> prev \<noteq> Some backslash
           then st\<lparr>inString := False, stringChar := [], current := current st @ [c]\<rparr>
         else st\<lparr>current := current st @ [c]\<rparr>))"

fun lex_loop :: "runtime \<Rightarrow> char option \<Rightarrow> string \<Rightarrow> lexstate \<Rightarrow> lexstate" where
  "lex_loop rt prev [] st = st"
| "lex_loop rt prev (c # cs) st = lex_loop rt (Some c) cs (lex_step rt prev c st)"

definition lex_init :: lexstate where
  "lex_init = \<lparr>args = [], current = [], depth = 0, inString = False, stringChar = []\<rparr>"

definition parseArguments :: "runtime \<Rightarrow> string \<Rightarrow> jsval list" where
  "parseArguments rt argsString =
     (if trim argsString = [] then []
      else
        (let st = lex_loop rt None argsString lex_init
         in if trim (current st) \<noteq> []
            then args st @ [parseValue rt (trim (current st))]
            else args st))"

section \<open>The grammar classifier\<close>

datatype parsed =
    Method string "string option" "string option" "jsval list"
  | Property string "string option" "string option"
  | Constructor string "jsval list"

text \<open>
  The common head \<open>^(\w+)(?:\.(\w+))?(?:\.(\w+))?\<close> of the first two patterns. \<open>\w+\<close> takes
  the whole run of word characters, and a group \<open>(?:\.(\w+))?\<close> is taken whenever a dot and
  a word character follow: what must come next, \<open>(\<close> or the end of the text, is neither a
  word character nor a dot, so no shorter choice can make the pattern match.
\<close>

definition opt_segment :: "string \<Rightarrow> string option \<times> string" where
  "opt_segment s =
     (if startsWith s ''.'' \<and> takeWhile isWord (drop 1 s) \<noteq> []
      then (Some (takeWhile isWord (drop 1 s)), dropWhile isWord (drop 1 s))
      else (None, s))"

definition path_head :: "string \<Rightarrow> (string \<times> string option \<times> string option \<times> string) option" where
  "path_head s =
     (if takeWhile isWord s = [] then None
      else
        (let (p1, r1) = opt_segment (dropWhile isWord s);
             (p2, r2) = opt_segment r1
         in Some (takeWhile isWord s, p1, p2, r2)))"

text \<open>The tail \<open>\((.*)\)$\<close>: an opening parenthesis, then a text without line terminators,
  then a closing parenthesis that ends the command.\<close>

definition call_tail :: "string \<Rightarrow> string option" where
  "call_tail s =
     (if startsWith s ''('' \<and> drop 1 s \<noteq> [] \<and> last s = CHR '')'' \<and>
         \<not> list_ex isLineTerminator (butlast (drop 1 s))
      then Some (butlast (drop 1 s))
      else None)"

text \<open>\<open>^new\s+(\w+)\((.*)\)$\<close>.\<close>

definition constructor_match :: "string \<Rightarrow> (string \<times> string) option" where
  "constructor_match s =
     (let r = drop 3 s; r1 = dropWhile isSpace r
      in if startsWith s ''new'' \<and> takeWhile isSpace r \<noteq> [] \<and> takeWhile isWord r1 \<noteq> []
         then (case call_tail (dropWhile isWord r1) of
                 Some a \<Rightarrow> Some (takeWhile isWord r1, a)
               | None \<Rightarrow> None)
         else None)"

definition parseCommand :: "runtime \<Rightarrow> string \<Rightarrow> parsed option" where
  "parseCommand rt command =
     (case (case path_head command of
              Some (obj, p1, p2, r) \<Rightarrow> map_option (\<lambda>a. (obj, p1, p2, a)) (call_tail r)
            | None \<Rightarrow> None) of
        Some (obj, p1, p2, a) \<Rightarrow> Some (Method obj p1 p2 (parseArguments rt a))
      | None \<Rightarrow>
         (case (case path_head command of
                  Some (obj, p1, p2, r) \<Rightarrow> (if r = [] then Some (obj, p1, p2) else None)
                | None \<Rightarrow> None) of
            Some (obj, p1, p2) \<Rightarrow> Some (Property obj p1 p2)
          | None \<Rightarrow>
             (case constructor_match command of
                Some (cls, a) \<Rightarrow> Some (Constructor cls (parseArguments rt a))
              | None \<Rightarrow> None)))"

section \<open>The dispatcher\<close>

definition allowedObjects :: "string list" where
  "allowedObjects = [''calendar'', ''Event'', ''EventStore'']"

definition allowedMethods :: "(string \<times> string list) list" where
  "allowedMethods = [
     (''calendar'',
        [''getEvents'', ''addEvent'', ''updateEvent'', ''removeEvent'', ''setEvents'',
         ''getEventsForDate'', ''getEventsInRange'', ''setView'', ''getView'',
         ''next'', ''previous'', ''today'', ''getCurrentDate'', ''setCurrentDate'',
         ''getTimezone'', ''setTimezone'', ''getViewData'', ''getEventById'',
         ''detectConflicts'', ''on'', ''off'', ''emit'']),
     (''Event'', [''constructor'', ''validate'', ''normalize'', ''clone'']),
     (''EventStore'',
        [''add'', ''update'', ''remove'', ''get'', ''getAll'', ''clear'',
         ''getByDate'', ''getByDateRange'', ''getStats'', ''getPerformanceMetrics'',
         ''query'', ''hasConflicts'', ''getConflicts'']),
     (''eventStore'',
        [''add'', ''update'', ''remove'', ''get'', ''getAll'', ''clear'',
         ''getByDate'', ''getByDateRange'', ''getStats'', ''getPerformanceMetrics'']),
     (''state'',
        [''undo'', ''redo'', ''canUndo'', ''canRedo'', ''getUndoCount'', ''getRedoCount'',
         ''subscribe'', ''unsubscribe'', ''getState''])]"

text \<open>
  \<open>this.allowedMethods[k]\<close>. \<open>allowedMethods\<close> is an object literal, so a key it does not
  hold is looked up in \<open>Object.prototype\<close>, whose members are functions (and, for
  \<open>__proto__\<close>, an object): values that are truthy and have no \<open>includes\<close> method.
\<close>

definition object_prototype_keys :: "string list" where
  "object_prototype_keys = [''constructor'', ''__defineGetter__'', ''__defineSetter__'',
     ''hasOwnProperty'', ''__lookupGetter__'', ''__lookupSetter__'', ''isPrototypeOf'',
     ''propertyIsEnumerable'', ''toString'', ''valueOf'', ''__proto__'', ''toLocaleString'']"

datatype scope = AllowList "string list" | PrototypeMember | NoScope

definition scope_of :: "string \<Rightarrow> scope" where
  "scope_of k =
     (case map_of allowedMethods k of
        Some l \<Rightarrow> AllowList l
      | None \<Rightarrow> (if k \<in> set object_prototype_keys then PrototypeMember else NoScope))"

text \<open>A capture group that did not take part in the match is \<open>undefined\<close>; as a key that is
  the text \<open>undefined\<close>.\<close>

definition key_text :: "string option \<Rightarrow> string" where
  "key_text k = (case k of Some s \<Rightarrow> s | None \<Rightarrow> ''undefined'')"

text \<open>Truthiness of a capture group: \<open>undefined\<close> and the empty text are falsy.\<close>

definition present :: "string option \<Rightarrow> bool" where
  "present k = (case k of Some s \<Rightarrow> s \<noteq> [] | None \<Rightarrow> False)"

text \<open>\<open>this.allowedMethods[property] || this.allowedMethods[object]\<close>.\<close>

definition allowedList :: "string option \<Rightarrow> string \<Rightarrow> scope" where
  "allowedList property object =
     (if scope_of (key_text property) \<noteq> NoScope then scope_of (key_text property)
      else scope_of object)"

definition isFunction :: "jsval \<Rightarrow> bool" where
  "isFunction v = (case v of VFunction f \<Rightarrow> True | _ \<Rightarrow> False)"

text \<open>The check of the allow-list and the call, for a method that is a function.\<close>

definition invokeAllowed ::
  "runtime \<Rightarrow> string \<Rightarrow> string option \<Rightarrow> string option \<Rightarrow> jsval \<Rightarrow> jsval \<Rightarrow> jsval list
     \<Rightarrow> (error + jsval) \<times> call list" where
  "invokeAllowed rt object property subProperty target method as =
     (case allowedList property object of
        AllowList l \<Rightarrow>
          (if (if present subProperty then key_text subProperty else ''call'') \<notin> set l
           then (Inl (MethodNotAllowed
                        (if present subProperty then key_text subProperty else key_text property)), [])
           else (case method of
                   VFunction f \<Rightarrow>
                     (case invoke rt f target as of
                        Inl m \<Rightarrow> (Inl (Thrown m), [Call f target as])
                      | Inr v \<Rightarrow> (Inr v, [Call f target as]))
                 | _ \<Rightarrow> (Inl (NotAFunction ''apply''), [])))
      | PrototypeMember \<Rightarrow> (Inl (TypeError ''allowedList.includes is not a function''), [])
      | NoScope \<Rightarrow>
          (case method of
             VFunction f \<Rightarrow>
               (case invoke rt f target as of
                  Inl m \<Rightarrow> (Inl (Thrown m), [Call f target as])
                | Inr v \<Rightarrow> (Inr v, [Call f target as]))
           | _ \<Rightarrow> (Inl (NotAFunction ''apply''), [])))"

text \<open>The part of \<open>executeMethod\<close> after the receiver \<open>target\<close> is found.\<close>

definition callOn ::
  "runtime \<Rightarrow> string \<Rightarrow> string option \<Rightarrow> string option \<Rightarrow> jsval \<Rightarrow> jsval list
     \<Rightarrow> (error + jsval) \<times> call list" where
  "callOn rt object property subProperty target as =
     (case (if present subProperty then getProp rt target (key_text subProperty) else Inr target) of
        Inl e \<Rightarrow> (Inl e, [])
      | Inr method \<Rightarrow>
          (if \<not> isFunction method then
             (if present subProperty \<and> truthy method then (Inr method, [])
              else (Inl (NotAFunction
                      (if present subProperty then key_text subProperty
                       else if present property then ''call'' else object)), []))
           else invokeAllowed rt object property subProperty target method as))"

definition executeMethod ::
  "runtime \<Rightarrow> jsval \<Rightarrow> string \<Rightarrow> string option \<Rightarrow> string option \<Rightarrow> jsval list
     \<Rightarrow> (error + jsval) \<times> call list" where
  "executeMethod rt ctx object property subProperty as =
     (case getProp rt ctx object of
        Inl e \<Rightarrow> (Inl e, [])
      | Inr base \<Rightarrow>
          (if \<not> truthy base then (Inl (ObjectNotFound object), [])
           else if present property then
             (case getProp rt base (key_text property) of
                Inl e \<Rightarrow> (Inl e, [])
              | Inr target \<Rightarrow>
                  (if \<not> truthy target
                   then (Inl (PropertyNotFound (key_text property) object), [])
                   else callOn rt object property subProperty target as))
           else callOn rt object property subProperty base as))"

definition executeProperty ::
  "runtime \<Rightarrow> jsval \<Rightarrow> string \<Rightarrow> string option \<Rightarrow> string option \<Rightarrow> error + jsval" where
  "executeProperty rt ctx object property subProperty =
     (case getProp rt ctx object of
        Inl e \<Rightarrow> Inl e
      | Inr base \<Rightarrow>
          (if \<not> truthy base then Inl (ObjectNotFound object)
           else
             (case (if present property then
                      (case getProp rt base (key_text property) of
                         Inl e \<Rightarrow> Inl e
                       | Inr v \<Rightarrow>
                           (if v = VUndefined
                            then Inl (PropertyNotFound (key_text property) object)
                            else Inr v))
                    else Inr base) of
                Inl e \<Rightarrow> Inl e
              | Inr v \<Rightarrow>
                  (if present subProperty then
                     (case getProp rt v (key_text subProperty) of
                        Inl e \<Rightarrow> Inl e
                      | Inr w \<Rightarrow>
                          (if w = VUndefined
                           then Inl (SubPropertyNotFound (key_text subProperty))
                           else Inr w))
                   else Inr v))))"

definition executeConstructor ::
  "runtime \<Rightarrow> jsval \<Rightarrow> string \<Rightarrow> jsval list \<Rightarrow> (error + jsval) \<times> call list" where
  "executeConstructor rt ctx className as =
     (if className \<notin> set allowedObjects then (Inl (ConstructorNotAllowed className), [])
      else
        (case getProp rt ctx className of
           Inl e \<Rightarrow> (Inl e, [])
         | Inr c \<Rightarrow>
             (if \<not> truthy c then (Inl (ClassNotFound className), [])
              else
                (case c of
                   VFunction f \<Rightarrow>
                     (case construct rt f as of
                        Inl m \<Rightarrow> (Inl (Thrown m), [New f as])
                      | Inr v \<Rightarrow> (Inr v, [New f as]))
                 | _ \<Rightarrow> (Inl (TypeError ''Constructor is not a constructor''), [])))))"

section \<open>\<open>execute\<close>\<close>

text \<open>\<open>command.trim().replace(/;$/, '')\<close>.\<close>

definition normalize :: "string \<Rightarrow> string" where
  "normalize command = (if endsWith (trim command) '';'' then butlast (trim command) else trim command)"

text \<open>The \<open>catch\<close> of \<open>execute\<close>: an error becomes a new error that carries only the
  wrapped message.\<close>

definition rethrow :: "(error + jsval) \<times> call list \<Rightarrow> (string + jsval) \<times> call list" where
  "rethrow r = (case fst r of Inl e \<Rightarrow> (Inl (wrap e), snd r) | Inr v \<Rightarrow> (Inr v, snd r))"

text \<open>The result of \<open>execute\<close> on a context \<open>ctx\<close>: the message of the error thrown or the
  value returned, and the calls and constructions performed.\<close>

definition execute :: "runtime \<Rightarrow> jsval \<Rightarrow> string \<Rightarrow> (string + jsval) \<times> call list" where
  "execute rt ctx command =
     (case validateSafety (normalize command) of
        Some e \<Rightarrow> (Inl (wrap e), [])
      | None \<Rightarrow>
          (case parseCommand rt (normalize command) of
             None \<Rightarrow> (Inl (wrap InvalidCommandFormat), [])
           | Some (Method object property subProperty as) \<Rightarrow>
               rethrow (executeMethod rt ctx object property subProperty as)
           | Some (Property object property subProperty) \<Rightarrow>
               rethrow (executeProperty rt ctx object property subProperty, [])
           | Some (Constructor className as) \<Rightarrow>
               rethrow (executeConstructor rt ctx className as)))"

section \<open>The object sanitizer\<close>

text \<open>\<open>this.sanitizers.string\<close>: \<open>String(val).replace(/[<>]/g, '')\<close>.\<close>

definition sanitize_string :: "string \<Rightarrow> string" where
  "sanitize_string s = filter (\<lambda>c. c \<noteq> CHR ''<'' \<and> c \<noteq> CHR ''>'') s"

text \<open>\<open>typeof v === 'object'\<close>.\<close>

fun isObjectType :: "jsval \<Rightarrow> bool" where
  "isObjectType VNull = True"
| "isObjectType (VDate d) = True"
| "isObjectType (VObject kvs) = True"
| "isObjectType (VArray xs) = True"
| "isObjectType v = False"

text \<open>\<open>Object.entries(v)\<close> for a value of object type: the entries of a mapping, the
  elements of an array under their indices, nothing for a date.\<close>

fun index_entries :: "nat \<Rightarrow> jsval list \<Rightarrow> (string \<times> jsval) list" where
  "index_entries i [] = []"
| "index_entries i (x # xs) = (show_nat i, x) # index_entries (Suc i) xs"

fun entries :: "jsval \<Rightarrow> (string \<times> jsval) list" where
  "entries (VObject kvs) = kvs"
| "entries (VArray xs) = index_entries 0 xs"
| "entries v = []"

definition skipped_key :: "string \<Rightarrow> bool" where
  "skipped_key k = (startsWith k ''__'' \<or> startsWith k ''on'')"

text \<open>
  \<open>sanitizeObject\<close>. The loop over \<open>Object.entries(obj)\<close> is a left fold whose accumulator is
  the object \<open>sanitized\<close>; \<open>typeof value === 'string'\<close> is the case \<open>VString\<close>.
\<close>

function sanitizeObject :: "jsval \<Rightarrow> jsval" where
  "sanitizeObject obj =
     (if obj = VNull \<or> obj = VUndefined then obj
      else if \<not> isObjectType obj then obj
      else VObject
        (foldl (\<lambda>sanitized kv.
                  if skipped_key (fst kv) then sanitized
                  else (case snd kv of
                          VString s \<Rightarrow> assign_prop sanitized (fst kv) (VString (sanitize_string s))
                        | v \<Rightarrow>
                           (if isObjectType v
                            then assign_prop sanitized (fst kv) (sanitizeObject v)
                            else assign_prop sanitized (fst kv) v)))
           [] (entries obj)))"
  by pat_completeness auto
termination
proof -
  have idx: "kv \<in> set (index_entries i xs) \<Longrightarrow> size (snd kv) < Suc (size_list size xs)"
    for kv :: "string \<times> jsval" and i xs
  proof (induction xs arbitrary: i)
    case Nil
    then show ?case by simp
  next
    case (Cons x xs)
    from Cons.prems have "snd kv = x \<or> kv \<in> set (index_entries (Suc i) xs)" by auto
    then show ?case
    proof
      assume "snd kv = x"
      then show ?thesis by simp
    next
      assume "kv \<in> set (index_entries (Suc i) xs)"
      then have "size (snd kv) < Suc (size_list size xs)" by (rule Cons.IH)
      then show ?thesis by simp
    qed
  qed
  have ent: "kv \<in> set kvs \<Longrightarrow> size (snd kv) < Suc (size_list (size_prod (\<lambda>_. 0) size) kvs)"
    for kv :: "string \<times> jsval" and kvs
  proof (induction kvs)
    case Nil
    then show ?case by simp
  next
    case (Cons p kvs)
    have le: "size (snd kv) \<le> size_prod (\<lambda>_. 0) size kv" by (cases kv) simp
    from Cons.prems have "kv = p \<or> kv \<in> set kvs" by auto
    then show ?case
    proof
      assume "kv = p"
      with le show ?thesis by simp
    next
      assume "kv \<in> set kvs"
      then have "size (snd kv) < Suc (size_list (size_prod (\<lambda>_. 0) size) kvs)" by (rule Cons.IH)
      then show ?thesis by simp
    qed
  qed
  have sub: "kv \<in> set (entries obj) \<Longrightarrow> size (snd kv) < size obj" for kv obj
    by (cases obj) (auto dest: idx ent)
  show ?thesis
    by (relation "measure size") (auto dest: sub)
qed

declare sanitizeObject.simps [simp del]

text \<open>What the loop stores for an entry it keeps: the scrubbed text for a string, the
  sanitized value for a value of object type, the value itself otherwise.\<close>

definition sanitized_value :: "jsval \<Rightarrow> jsval" where
  "sanitized_value v =
     (case v of
        VString s \<Rightarrow> VString (sanitize_string s)
      | VObject m \<Rightarrow> sanitizeObject (VObject m)
      | VArray xs \<Rightarrow> sanitizeObject (VArray xs)
      | VDate d \<Rightarrow> sanitizeObject (VDate d)
      | _ \<Rightarrow> v)"

section \<open>A runtime and contexts for concrete commands\<close>

text \<open>A runtime in which no value has properties beyond its entries, every function returns
  the text \<open>result\<close> and every construction yields an empty object.\<close>

definition rt0 :: runtime where
  "rt0 = \<lparr>now = 1000,
          inherited = (\<lambda>v k. VUndefined),
          invoke = (\<lambda>f this as. Inr (VString ''result'')),
          construct = (\<lambda>f as. Inr (VObject []))\<rparr>"

definition ctx0 :: jsval where
  "ctx0 = VObject [
     (''calendar'', VObject [
        (''getEvents'', VFunction 0),
        (''setTimeout'', VFunction 1),
        (''helper'', VFunction 2),
        (''count'', VNumber (Fin 0)),
        (''eventStore'', VObject [(''getAll'', VFunction 3), (''size'', VNumber (Fin 0))])]),
     (''zero'', VNumber (Fin 0)),
     (''Event'', VFunction 4),
     (''Function'', VFunction 5),
     (''Unapproved'', VFunction 6)]"

section \<open>Well-nested argument texts\<close>






section \<open>Supporting lemmas\<close>

subsection \<open>The decoder always consumes input\<close>

text \<open>The length tests in \<open>json_elements\<close> and \<open>json_members\<close> never fail: string
  characters and values leave a rest that is shorter than the text they were read from.\<close>

lemma json_chars_shorter: "json_chars acc s = Some (k, r) \<Longrightarrow> length r < length s"
proof (induction acc s rule: json_chars.induct)
  case (1 acc)
  then show ?case by simp
next
  case (2 acc c cs)
  show ?case
  proof (cases "c = dquote")
    case True
    with "2.prems" show ?thesis by auto
  next
    case nq: False
    show ?thesis
    proof (cases "c = backslash")
      case False
      with nq "2.prems" "2.IH"(3) show ?thesis
        by (auto split: if_splits)
    next
      case bs: True
      with nq "2.prems" obtain e t where cs: "cs = e # t" by (cases cs) auto
      show ?thesis
      proof (cases "e = CHR ''u''")
        case True
        with nq bs cs "2.prems" "2.IH"(1) show ?thesis
          by (fastforce split: if_splits)
      next
        case False
        with nq bs cs "2.prems" "2.IH"(2) show ?thesis
          by (fastforce split: if_splits option.splits)
      qed
    qed
  qed
qed

lemma json_ws_le: "length (json_ws s) \<le> length s"
  unfolding json_ws_def by (rule length_dropWhile_le)

lemma json_ws_Cons: "json_ws s = c # cs \<Longrightarrow> length cs < length s"
  using json_ws_le [of s] by simp

lemma exponent_part_le: "exponent_part s = Some (e, r) \<Longrightarrow> length r \<le> length s"
proof (cases s)
  case Nil
  then show "exponent_part s = Some (e, r) \<Longrightarrow> length r \<le> length s"
    by (simp add: exponent_part_def)
next
  case (Cons c cs)
  have a: "length (dropWhile isDigit t) \<le> length t" for t by (rule length_dropWhile_le)
  assume "exponent_part s = Some (e, r)"
  with Cons show "length r \<le> length s"
    using a [of cs] a [of "tl cs"]
    by (cases cs) (auto simp: exponent_part_def Let_def split: if_splits)
qed

lemma json_fraction_le: "json_fraction s = Some (fp, r) \<Longrightarrow> length r \<le> length s"
  using length_dropWhile_le [of isDigit "tl s"]
  by (cases s) (auto simp: json_fraction_def split: if_splits)

lemma json_unsigned_shorter: "json_unsigned s = Some (x, r) \<Longrightarrow> length r < length s"
proof -
  assume a: "json_unsigned s = Some (x, r)"
  then have ne: "takeWhile isDigit s \<noteq> []"
    by (auto simp: json_unsigned_def Let_def split: if_splits)
  have "length (takeWhile isDigit s) + length (dropWhile isDigit s) = length s"
    by (metis length_append takeWhile_dropWhile_id)
  with ne have d: "length (dropWhile isDigit s) < length s"
    by (cases "takeWhile isDigit s") auto
  from a obtain fp r1 e where "json_fraction (dropWhile isDigit s) = Some (fp, r1)"
    "exponent_part r1 = Some (e, r)"
    by (auto simp: json_unsigned_def Let_def split: if_splits option.splits)
  then have "length r \<le> length (dropWhile isDigit s)"
    using json_fraction_le exponent_part_le by (meson le_trans)
  with d show ?thesis by simp
qed

lemma json_number_shorter: "json_number s = Some (n, r) \<Longrightarrow> length r < length s"
  by (cases s) (auto simp: json_number_def split: if_splits dest!: json_unsigned_shorter)

lemma json_elements_unfold:
  "json_elements acc s = Some (v, r) \<Longrightarrow>
   \<exists>v' r1 d t. json_value s = Some (v', r1) \<and> length r1 < length s \<and> json_ws r1 = d # t \<and>
     ((d = CHR '','' \<and> json_elements (acc @ [v']) t = Some (v, r)) \<or>
      (d \<noteq> CHR '','' \<and> d = CHR '']'' \<and> r = t))"
  apply (subst (asm) json_elements.simps)
  apply (cases "json_value s")
   apply simp
  apply (clarsimp split: if_splits list.splits)
  done

lemma json_members_unfold:
  "json_members accm s = Some (v, r) \<Longrightarrow>
   \<exists>q cs k r1 d r' v' r'' d' t.
     json_ws s = q # cs \<and> q = dquote \<and> json_chars [] cs = Some (k, r1) \<and>
     json_ws r1 = d # r' \<and> d = CHR '':'' \<and> length r' < length s \<and>
     json_value r' = Some (v', r'') \<and> length r'' < length r' \<and> json_ws r'' = d' # t \<and>
     ((d' = CHR '','' \<and> json_members (define_prop accm k v') t = Some (v, r)) \<or>
      (d' \<noteq> CHR '','' \<and> d' = CHR ''}'' \<and> r = t))"
  apply (subst (asm) json_members.simps)
  apply (clarsimp split: if_splits list.splits option.splits)
  done

lemma json_shorter:
  "json_value s = Some (v, r) \<Longrightarrow> length r < length s"
  "json_elements acc s = Some (v, r) \<Longrightarrow> length r < length s"
  "json_members accm s = Some (v, r) \<Longrightarrow> length r < length s"
proof (induction s and acc s and accm s arbitrary: v r and v r and v r
       rule: json_value_json_elements_json_members.induct)
  case (1 s)
  from "1.prems" obtain c cs where ws: "json_ws s = c # cs"
    by (subst (asm) json_value.simps) (auto split: list.splits)
  then have cs: "length cs < length s" by (rule json_ws_Cons)
  have lit: "length (drop n (c # cs)) \<le> length (c # cs)" for n by simp
  show ?case
  proof (cases "c = CHR ''{''")
    case True
    from "1.prems" ws True obtain d t where d: "json_ws cs = d # t"
      by (subst (asm) json_value.simps) (auto split: list.splits)
    then have t: "length t < length cs" by (rule json_ws_Cons)
    show ?thesis
    proof (cases "d = CHR ''}''")
      case True
      with "1.prems" ws \<open>c = CHR ''{''\<close> d t cs show ?thesis
        by (subst (asm) json_value.simps) auto
    next
      case False
      with "1.prems" ws \<open>c = CHR ''{''\<close> d have "json_members [] cs = Some (v, r)"
        by (subst (asm) json_value.simps) auto
      from "1.IH"(1) [OF ws \<open>c = CHR ''{''\<close> d False this] cs show ?thesis by simp
    qed
  next
    case nb: False
    show ?thesis
    proof (cases "c = CHR ''[''")
      case True
      from "1.prems" ws nb True obtain d t where d: "json_ws cs = d # t"
        by (subst (asm) json_value.simps) (auto split: list.splits)
      then have t: "length t < length cs" by (rule json_ws_Cons)
      show ?thesis
      proof (cases "d = CHR '']''")
        case True
        with "1.prems" ws nb \<open>c = CHR ''[''\<close> d t cs show ?thesis
          by (subst (asm) json_value.simps) auto
      next
        case False
        with "1.prems" ws nb \<open>c = CHR ''[''\<close> d have "json_elements [] cs = Some (v, r)"
          by (subst (asm) json_value.simps) auto
        from "1.IH"(2) [OF ws nb \<open>c = CHR ''[''\<close> d False this] cs show ?thesis by simp
      qed
    next
      case na: False
      from "1.prems" ws nb na have
        "(\<exists>t. json_chars [] cs = Some (t, r)) \<or> r = drop 4 (c # cs) \<or> r = drop 5 (c # cs) \<or>
         (\<exists>n. json_number (c # cs) = Some (n, r))"
        by (subst (asm) json_value.simps) (auto split: if_splits)
      then have "length r \<le> length (c # cs)"
        using json_chars_shorter [of "[]" cs _ r] json_number_shorter [of "c # cs" _ r]
        by (auto simp: less_imp_le)
      moreover have "length (c # cs) \<le> length s" using json_ws_le [of s] ws by simp
      moreover have "length r \<noteq> length s"
      proof
        assume eq: "length r = length s"
        from "1.prems" ws nb na show False
          using json_chars_shorter [of "[]" cs _ r] json_number_shorter [of "c # cs" _ r] eq cs
                json_ws_le [of s]
          by (subst (asm) json_value.simps) (auto split: if_splits simp: startsWith_def)
      qed
      ultimately show ?thesis by simp
    qed
  qed
next
  case (2 acc s)
  from json_elements_unfold [OF "2.prems"] obtain v' r1 d t where
    jv: "json_value s = Some (v', r1)" and g: "length r1 < length s"
    and ws: "json_ws r1 = d # t"
    and alt: "(d = CHR '','' \<and> json_elements (acc @ [v']) t = Some (v, r)) \<or>
              (d \<noteq> CHR '','' \<and> d = CHR '']'' \<and> r = t)"
    by blast
  have t: "length t < length r1" using ws by (rule json_ws_Cons)
  from alt have "length r \<le> length t"
  proof
    assume a: "d = CHR '','' \<and> json_elements (acc @ [v']) t = Some (v, r)"
    have "length r < length t"
      by (rule "2.IH"(2) [OF jv refl g ws]) (use a in simp_all)
    then show ?thesis by simp
  next
    assume "d \<noteq> CHR '','' \<and> d = CHR '']'' \<and> r = t"
    then show ?thesis by simp
  qed
  with t g show ?case by simp
next
  case (3 accm s)
  from json_members_unfold [OF "3.prems"] obtain q cs k r1 d r' v' r'' d' t where
    ws: "json_ws s = q # cs" and q: "q = dquote" and ch: "json_chars [] cs = Some (k, r1)"
    and ws1: "json_ws r1 = d # r'" and d: "d = CHR '':''"
    and lt: "length r' < length s" and jv: "json_value r' = Some (v', r'')"
    and g: "length r'' < length r'" and ws2: "json_ws r'' = d' # t"
    and alt: "(d' = CHR '','' \<and> json_members (define_prop accm k v') t = Some (v, r)) \<or>
              (d' \<noteq> CHR '','' \<and> d' = CHR ''}'' \<and> r = t)"
    by blast
  have t: "length t < length r''" using ws2 by (rule json_ws_Cons)
  from alt have "length r \<le> length t"
  proof
    assume a: "d' = CHR '','' \<and> json_members (define_prop accm k v') t = Some (v, r)"
    have "length r < length t"
      using "3.IH"(2) ws q ch ws1 d lt jv g ws2 a by blast
    then show ?thesis by simp
  next
    assume "d' \<noteq> CHR '','' \<and> d' = CHR ''}'' \<and> r = t"
    then show ?thesis by simp
  qed
  with t g lt show ?case by simp
qed

subsection \<open>The lexer on well-nested texts\<close>









subsection \<open>The deny patterns in order\<close>

lemma first_unsafe_first:
  "i < length ps \<Longrightarrow> test (ps ! i) c \<Longrightarrow>
   \<exists>j\<le>i. test (ps ! j) c \<and> (\<forall>k<j. \<not> test (ps ! k) c) \<and>
          first_unsafe ps c = Some (UnsafePattern (source (ps ! j)))"
proof (induction ps arbitrary: i)
  case Nil
  then show ?case by simp
next
  case (Cons p ps)
  show ?case
  proof (cases "test p c")
    case True
    then show ?thesis by (intro exI [of _ 0]) simp
  next
    case False
    with Cons.prems obtain i' where i': "i = Suc i'" by (cases i) auto
    with Cons.prems have "i' < length ps" "test (ps ! i') c" by simp_all
    from Cons.IH [OF this] obtain j where j: "j \<le> i'" "test (ps ! j) c"
      "\<forall>k<j. \<not> test (ps ! k) c" "first_unsafe ps c = Some (UnsafePattern (source (ps ! j)))"
      by blast
    have "\<forall>k<Suc j. \<not> test ((p # ps) ! k) c"
    proof (intro allI impI)
      fix k assume "k < Suc j"
      then show "\<not> test ((p # ps) ! k) c" using False j(3) by (cases k) auto
    qed
    with j False i' show ?thesis by (intro exI [of _ "Suc j"]) simp
  qed
qed

subsection \<open>The dispatcher\<close>

lemma opt_segment_nonempty: "opt_segment s = (Some p, r) \<Longrightarrow> p \<noteq> []"
  by (auto simp: opt_segment_def split: if_splits)

lemma path_head_prop_nonempty: "path_head c = Some (obj, Some p, p2, r) \<Longrightarrow> p \<noteq> []"
  by (auto simp: path_head_def Let_def split: if_splits prod.splits dest: opt_segment_nonempty)

lemma parse_method_prop_nonempty:
  "parseCommand rt c = Some (Method obj (Some p) sub as) \<Longrightarrow> p \<noteq> []"
  by (auto simp: parseCommand_def split: option.splits prod.splits if_splits
           dest: path_head_prop_nonempty)

lemma scope_no_call: "scope_of k = AllowList l \<Longrightarrow> ''call'' \<notin> set l"
  by (auto simp: scope_of_def allowedMethods_def split: option.splits if_splits)

lemma allowedList_no_call: "allowedList p obj = AllowList l \<Longrightarrow> ''call'' \<notin> set l"
  by (auto simp: allowedList_def dest: scope_no_call split: if_splits)

subsection \<open>Lookups in a sanitized mapping\<close>

lemma map_of_replace_entry:
  "map_of (replace_entry k v al) k' =
     (if k' = k \<and> map_of al k \<noteq> None then Some v else map_of al k')"
  by (induction al) auto

lemma map_of_insert_index:
  "map_of (insert_index k v al) k' = (if k' = k then Some v else map_of al k')"
  by (induction al) auto

lemma map_of_define_prop:
  "map_of (define_prop al k v) k' = (if k' = k then Some v else map_of al k')"
proof (cases "k \<in> set (map fst al)")
  case True
  then have "map_of al k \<noteq> None" by (simp add: map_of_eq_None_iff)
  with True show ?thesis by (simp add: define_prop_def map_of_replace_entry)
next
  case False
  then have none: "map_of al k = None" by (simp add: map_of_eq_None_iff)
  show ?thesis
  proof (cases "is_array_index k")
    case True
    with False show ?thesis by (simp add: define_prop_def map_of_insert_index)
  next
    case nidx: False
    have "map_of (al @ [(k, v)]) k' = (if k' = k then Some v else map_of al k')"
      using none by (auto simp: map_add_def split: option.splits)
    with False nidx show ?thesis by (simp add: define_prop_def)
  qed
qed

lemma not_skipped_proto: "\<not> skipped_key k \<Longrightarrow> k \<noteq> ''__proto__''"
  by (auto simp: skipped_key_def startsWith_def)

lemma sanitize_fold_lookup:
  "distinct (map fst kvs) \<Longrightarrow>
   map_of (foldl (\<lambda>sanitized kv. if skipped_key (fst kv) then sanitized
                                  else assign_prop sanitized (fst kv) (g (snd kv))) acc kvs) k =
     (if \<not> skipped_key k \<and> k \<in> fst ` set kvs then map_option g (map_of kvs k)
      else map_of acc k)"
proof (induction kvs arbitrary: acc)
  case Nil
  then show ?case by simp
next
  case (Cons p kvs)
  from Cons.prems have d: "distinct (map fst kvs)" and nin: "fst p \<notin> fst ` set kvs" by simp_all
  show ?case
  proof (cases "skipped_key (fst p)")
    case True
    with Cons.IH [OF d] nin show ?thesis by (cases p) auto
  next
    case False
    then have np: "fst p \<noteq> ''__proto__''" by (rule not_skipped_proto)
    with False Cons.IH [OF d] nin show ?thesis
      by (cases p) (auto simp: assign_prop_def map_of_define_prop map_of_eq_None_iff)
  qed
qed

lemma sanitizeObject_VObject:
  "sanitizeObject (VObject kvs) =
     VObject (foldl (\<lambda>sanitized kv. if skipped_key (fst kv) then sanitized
                       else assign_prop sanitized (fst kv) (sanitized_value (snd kv))) [] kvs)"
proof -
  have "(\<lambda>sanitized kv.
            if skipped_key (fst kv) then sanitized
            else (case snd kv of
                    VString s \<Rightarrow> assign_prop sanitized (fst kv) (VString (sanitize_string s))
                  | v \<Rightarrow>
                     (if isObjectType v
                      then assign_prop sanitized (fst kv) (sanitizeObject v)
                      else assign_prop sanitized (fst kv) v))) =
        (\<lambda>sanitized kv. if skipped_key (fst kv) then sanitized
                       else assign_prop sanitized (fst kv) (sanitized_value (snd kv)))"
    by (intro ext) (auto simp: sanitized_value_def sanitizeObject.simps [of VNull]
                         split: jsval.splits)
  then show ?thesis
    by (subst sanitizeObject.simps) simp
qed

text \<open>
  What \<open>sanitizeObject\<close> does to a mapping with distinct keys, entry by entry, for the values
  that are not arrays or dates: a key that starts with \<open>__\<close> or \<open>on\<close> is absent from the
  result, as is every key the mapping did not have; under every other key stands the string
  without its angle brackets when the value was a string, the sanitized mapping when the
  value was a mapping, and the value itself when it was \<open>null\<close>, \<open>undefined\<close>, a boolean, a
  number or a function.
\<close>

lemma sanitizeObject_on_mappings:
  assumes "distinct (map fst kvs)"
  shows "(\<forall>k. skipped_key k \<or> k \<notin> fst ` set kvs \<longrightarrow>
            map_of (entries (sanitizeObject (VObject kvs))) k = None) \<and>
         (\<forall>k v. (k, v) \<in> set kvs \<and> \<not> skipped_key k \<and>
                 (\<forall>xs. v \<noteq> VArray xs) \<and> (\<forall>d. v \<noteq> VDate d) \<longrightarrow>
            map_of (entries (sanitizeObject (VObject kvs))) k =
              Some (case v of
                      VString s \<Rightarrow> VString (sanitize_string s)
                    | VObject m \<Rightarrow> sanitizeObject (VObject m)
                    | _ \<Rightarrow> v))"
proof -
  have look: "map_of (entries (sanitizeObject (VObject kvs))) k =
     (if \<not> skipped_key k \<and> k \<in> fst ` set kvs then map_option sanitized_value (map_of kvs k)
      else None)" for k
    using sanitize_fold_lookup [OF assms, of sanitized_value "[]" k]
    by (simp add: sanitizeObject_VObject)
  have "map_of kvs k = Some v" if "(k, v) \<in> set kvs" for k v
    using that assms by simp
  then show ?thesis
    by (auto simp: look sanitized_value_def image_iff split: jsval.splits)
qed

text \<open>The mapping \<open>{__proto__: 1, onClick: 2, title: "<b>hi</b>", nested: {onLoad: 3, safe: "ok"}}\<close>:
  \<open>__proto__\<close>, \<open>onClick\<close> and the nested \<open>onLoad\<close> are removed, \<open>title\<close> loses its angle
  brackets, the nested \<open>safe\<close> is kept.\<close>

lemma sanitizeObject_example:
  "sanitizeObject (VObject [(''__proto__'', VNumber (Fin 1)), (''onClick'', VNumber (Fin 2)),
       (''title'', VString ''<b>hi</b>''),
       (''nested'', VObject [(''onLoad'', VNumber (Fin 3)), (''safe'', VString ''ok'')])]) =
     VObject [(''title'', VString ''bhi/b''), (''nested'', VObject [(''safe'', VString ''ok'')])]"
  by code_simp

section \<open>The claims\<close>

text \<open>
  C1. The claim asks that a method call \<open>obj.prop(args)\<close> whose \<open>prop\<close> is in the allow-list
  of \<open>obj\<close> be invoked once and its result returned. \<open>getEvents\<close> is in the allow-list of
  \<open>calendar\<close> and \<open>calendar.getEvents\<close> is a function of the context, yet
  \<open>calendar.getEvents()\<close> fails with \<open>Method 'getEvents' is not allowed\<close> and calls nothing:
  for a call with one property segment \<open>executeMethod\<close> looks for the name \<open>call\<close> in the
  allow-list instead of the name of the property.
\<close>

theorem C1_allowed_method_rejected:
  "map_of allowedMethods ''calendar'' \<noteq> None \<and>
   ''getEvents'' \<in> set (the (map_of allowedMethods ''calendar'')) \<and>
   execute rt0 ctx0 ''calendar.getEvents()'' =
     (Inl (''Command execution failed: Method '' @ [squote] @ ''getEvents'' @ [squote] @
           '' is not allowed''), [])"
  by code_simp

text \<open>
  C2. The claim asks that the mapping decoded from a text in braces pass through the object
  sanitizer before \<open>parseValue\<close> returns it. \<open>parseValue\<close> never calls \<open>sanitizeObject\<close>: the
  mapping decoded from \<open>{onClick:'x',title:'<b>hi</b>'}\<close> keeps the key \<open>onClick\<close> and the
  angle brackets, which the sanitizer would have removed.
\<close>

theorem C2_object_literal_not_sanitized:
  "parseValue rt0 ''{onClick:'x',title:'<b>hi</b>'}'' =
     VObject [(''onClick'', VString ''x''), (''title'', VString ''<b>hi</b>'')] \<and>
   sanitizeObject (parseValue rt0 ''{onClick:'x',title:'<b>hi</b>'}'') =
     VObject [(''title'', VString ''bhi/b'')]"
  by code_simp

text \<open>
  C3. When some deny pattern matches the normalized text of a command, \<open>execute\<close> fails with
  the wrapped message of \<open>UnsafePattern\<close> (the SecurityViolation) for the first pattern of the
  list that matches, and the log of calls and constructions is empty: nothing of the context
  was invoked. The context is not even read: the result is the same for every context and
  every runtime.
\<close>

theorem C3_denylist_blocks_dispatch:
  assumes "i < length dangerous"
    and "test (dangerous ! i) (normalize command)"
  shows "\<exists>j\<le>i. test (dangerous ! j) (normalize command) \<and>
           (\<forall>k<j. \<not> test (dangerous ! k) (normalize command)) \<and>
           execute rt ctx command = (Inl (wrap (UnsafePattern (source (dangerous ! j)))), [])"
proof -
  from first_unsafe_first [OF assms] obtain j where j: "j \<le> i"
    "test (dangerous ! j) (normalize command)"
    "\<forall>k<j. \<not> test (dangerous ! k) (normalize command)"
    "first_unsafe dangerous (normalize command) = Some (UnsafePattern (source (dangerous ! j)))"
    by blast
  then have "execute rt ctx command = (Inl (wrap (UnsafePattern (source (dangerous ! j)))), [])"
    by (simp add: execute_def validateSafety_def)
  with j show ?thesis by blast
qed

text \<open>The command \<open>eval (1);\<close>: the first pattern matches and is the one reported.\<close>

theorem C3_witness:
  "0 < length dangerous \<and> test (dangerous ! 0) (normalize ''eval (1);'') \<and>
   execute rt0 ctx0 ''eval (1);'' =
     (Inl (''Command execution failed: Unsafe pattern detected: /eval'' @ [backslash] @ ''s*'' @
           [backslash] @ ''(/i''), [])"
proof -
  have h1: "0 < length dangerous" by (simp add: dangerous_def)
  have h2: "test (dangerous ! 0) (normalize ''eval (1);'')" by code_simp
  have src: "wrap (UnsafePattern (source (dangerous ! 0))) =
      ''Command execution failed: Unsafe pattern detected: /eval'' @ [backslash] @ ''s*'' @
           [backslash] @ ''(/i''" by code_simp
  from C3_denylist_blocks_dispatch [OF h1 h2, of rt0 ctx0] src h1 h2
  show ?thesis by auto
qed

text \<open>
  C4, as amended. For a method call \<open>obj.prop(args)\<close> that passes the safety validator, where
  \<open>prop\<close> is a function on the object found for \<open>obj\<close> and the applicable scope
  (\<open>allowedMethods[prop]\<close>, else \<open>allowedMethods[obj]\<close>) is an allow-list that does not
  hold \<open>prop\<close>, \<open>execute\<close> fails with \<open>MethodNotAllowed\<close> (Forbidden) and the log of calls is
  empty: the method was not invoked.
\<close>

theorem C4_forbidden_method_never_invoked:
  assumes "validateSafety (normalize command) = None"
    and "parseCommand rt (normalize command) = Some (Method obj (Some prop) None as)"
    and "getProp rt ctx obj = Inr base"
    and "truthy base"
    and "getProp rt base prop = Inr (VFunction f)"
    and "allowedList (Some prop) obj = AllowList l"
    and "prop \<notin> set l"
  shows "execute rt ctx command = (Inl (wrap (MethodNotAllowed prop)), [])"
proof -
  have p: "prop \<noteq> []" using assms(2) by (rule parse_method_prop_nonempty)
  have nc: "''call'' \<notin> set l" using assms(6) by (rule allowedList_no_call)
  have "executeMethod rt ctx obj (Some prop) None as = (Inl (MethodNotAllowed prop), [])"
    using assms(3-6) p nc
    by (simp add: executeMethod_def callOn_def invokeAllowed_def present_def key_text_def
                  isFunction_def)
  then show ?thesis
    using assms(1,2) by (simp add: execute_def rethrow_def)
qed

text \<open>
  The claim as stated, without the condition on the safety validator, fails:
  \<open>calendar.setTimeout()\<close> is a method call whose method is a function of the context and is
  absent from the allow-list of \<open>calendar\<close> (the dispatcher alone would answer
  \<open>MethodNotAllowed\<close>), but \<open>execute\<close> rejects the text before it is parsed, with the
  SecurityViolation for the pattern \<open>/setTimeout/i\<close>.
\<close>

theorem C4_counterexample:
  "parseCommand rt0 (normalize ''calendar.setTimeout()'') =
     Some (Method ''calendar'' (Some ''setTimeout'') None []) \<and>
   executeProperty rt0 ctx0 ''calendar'' (Some ''setTimeout'') None = Inr (VFunction 1) \<and>
   allowedList (Some ''setTimeout'') ''calendar'' =
     AllowList (the (map_of allowedMethods ''calendar'')) \<and>
   ''setTimeout'' \<notin> set (the (map_of allowedMethods ''calendar'')) \<and>
   executeMethod rt0 ctx0 ''calendar'' (Some ''setTimeout'') None [] =
     (Inl (MethodNotAllowed ''setTimeout''), []) \<and>
   execute rt0 ctx0 ''calendar.setTimeout()'' =
     (Inl ''Command execution failed: Unsafe pattern detected: /setTimeout/i'', []) \<and>
   execute rt0 ctx0 ''calendar.setTimeout()'' \<noteq>
     (Inl (wrap (MethodNotAllowed ''setTimeout'')), [])"
  by code_simp

theorem C4_witness:
  "validateSafety (normalize ''calendar.helper()'') = None \<and>
   parseCommand rt0 (normalize ''calendar.helper()'') =
     Some (Method ''calendar'' (Some ''helper'') None []) \<and>
   truthy (VObject [(''helper'', VFunction 2)]) \<and>
   ''helper'' \<notin> set (the (map_of allowedMethods ''calendar'')) \<and>
   execute rt0 (VObject [(''calendar'', VObject [(''helper'', VFunction 2)])]) ''calendar.helper()'' =
     (Inl (''Command execution failed: Method '' @ [squote] @ ''helper'' @ [squote] @
           '' is not allowed''), [])"
proof -
  let ?base = "VObject [(''helper'', VFunction 2)]"
  let ?ctx = "VObject [(''calendar'', ?base)]"
  have h1: "validateSafety (normalize ''calendar.helper()'') = None" by code_simp
  have h2: "parseCommand rt0 (normalize ''calendar.helper()'') =
     Some (Method ''calendar'' (Some ''helper'') None [])" by code_simp
  have h3: "getProp rt0 ?ctx ''calendar'' = Inr ?base" by code_simp
  have h4: "truthy ?base" by simp
  have h5: "getProp rt0 ?base ''helper'' = Inr (VFunction 2)" by code_simp
  have h6: "allowedList (Some ''helper'') ''calendar'' =
              AllowList (the (map_of allowedMethods ''calendar''))" by code_simp
  have h7: "''helper'' \<notin> set (the (map_of allowedMethods ''calendar''))" by code_simp
  have m: "wrap (MethodNotAllowed ''helper'') =
     ''Command execution failed: Method '' @ [squote] @ ''helper'' @ [squote] @ '' is not allowed''"
    by code_simp
  from C4_forbidden_method_never_invoked [OF h1 h2 h3 h4 h5 h6 h7] h1 h2 h4 h7 m
  show ?thesis by simp
qed




text \<open>
  C6. The argument text made of the one quoted literal \<open>"a,b{c}"\<close> is not split at its comma
  nor changed at its braces: the lexer yields one argument, and the coercer turns it into the
  String value whose characters are exactly \<open>a,b{c}\<close>, the characters that printing the
  value gives back. This holds in every runtime.
\<close>

theorem C6_quoted_literal_round_trip:
  "parseArguments rt ([dquote] @ ''a,b{c}'' @ [dquote]) = [VString ''a,b{c}'']"
  by code_simp

text \<open>
  C7, as amended. For a constructor call \<open>new C(args)\<close> that passes the safety validator and
  whose class name is not in \<open>allowedObjects\<close>, \<open>execute\<close> fails with
  \<open>ConstructorNotAllowed\<close> (Forbidden) and the log is empty: nothing was constructed.
\<close>

theorem C7_unlisted_constructor_forbidden:
  assumes "validateSafety (normalize command) = None"
    and "parseCommand rt (normalize command) = Some (Constructor cls as)"
    and "cls \<notin> set allowedObjects"
  shows "execute rt ctx command = (Inl (wrap (ConstructorNotAllowed cls)), [])"
  using assms by (simp add: execute_def executeConstructor_def rethrow_def)

text \<open>
  The claim as stated, without the condition on the safety validator, fails:
  \<open>new Function()\<close> is a constructor call of a class that is not in \<open>allowedObjects\<close>, and
  \<open>execute\<close> fails with the SecurityViolation for the pattern \<open>/function\s*\(/i\<close>, not with
  Forbidden.
\<close>

theorem C7_counterexample:
  "parseCommand rt0 (normalize ''new Function()'') = Some (Constructor ''Function'' []) \<and>
   ''Function'' \<notin> set allowedObjects \<and>
   execute rt0 ctx0 ''new Function()'' =
     (Inl (''Command execution failed: Unsafe pattern detected: /function'' @ [backslash] @
           ''s*'' @ [backslash] @ ''(/i''), []) \<and>
   execute rt0 ctx0 ''new Function()'' \<noteq> (Inl (wrap (ConstructorNotAllowed ''Function'')), [])"
  by code_simp

theorem C7_witness:
  "validateSafety (normalize ''new Unapproved()'') = None \<and>
   parseCommand rt0 (normalize ''new Unapproved()'') = Some (Constructor ''Unapproved'' []) \<and>
   ''Unapproved'' \<notin> set allowedObjects \<and>
   execute rt0 ctx0 ''new Unapproved()'' =
     (Inl (''Command execution failed: Constructor '' @ [squote] @ ''Unapproved'' @ [squote] @
           '' is not allowed''), [])"
proof -
  have h1: "validateSafety (normalize ''new Unapproved()'') = None" by code_simp
  have h2: "parseCommand rt0 (normalize ''new Unapproved()'') = Some (Constructor ''Unapproved'' [])"
    by code_simp
  have h3: "''Unapproved'' \<notin> set allowedObjects" by code_simp
  have m: "wrap (ConstructorNotAllowed ''Unapproved'') =
     ''Command execution failed: Constructor '' @ [squote] @ ''Unapproved'' @ [squote] @
           '' is not allowed''"
    by code_simp
  from C7_unlisted_constructor_forbidden [OF h1 h2 h3, of ctx0] h1 h2 h3 m
  show ?thesis by simp
qed

text \<open>
  C8. For every text that starts with \<open>[\<close> and whose form with double quotes \<open>JSON.parse\<close>
  rejects, \<open>parseValue\<close> returns the empty array and raises nothing.
\<close>

theorem C8_malformed_array_is_empty:
  assumes "startsWith v ''[''"
    and "JSON_parse (replace_squotes v) = None"
  shows "parseValue rt v = VArray []"
proof -
  from assms(1) obtain t where v: "v = CHR ''['' # t"
    by (cases v) (auto simp: startsWith_def)
  have nl: "\<not> is_number_literal v"
    by (simp add: v is_number_literal_def startsWith_def isDigit_def)
  have q: "\<not> startsWith v [dquote]" "\<not> startsWith v [squote]"
    "\<not> startsWith v ''new Date(''" "\<not> startsWith v ''{''"
    by (simp_all add: v startsWith_def)
  have kw: "v \<noteq> ''null''" "v \<noteq> ''undefined''" "v \<noteq> ''true''" "v \<noteq> ''false''"
    by (simp_all add: v)
  show ?thesis
    using nl q kw assms by (subst parseValue.simps) simp
qed

text \<open>The unterminated literal \<open>[1, 2,\<close> is such a text.\<close>

theorem C8_witness:
  "startsWith ''[1, 2,'' ''['' \<and> JSON_parse (replace_squotes ''[1, 2,'') = None \<and>
   parseValue rt0 ''[1, 2,'' = VArray []"
proof -
  have h1: "startsWith ''[1, 2,'' ''[''" by code_simp
  have h2: "JSON_parse (replace_squotes ''[1, 2,'') = None" by code_simp
  from C8_malformed_array_is_empty [OF h1 h2, of rt0] h1 h2 show ?thesis by simp
qed

text \<open>
  C9. The claim asks that in a mapping given to \<open>sanitizeObject\<close> every value that is neither
  a string nor a mapping pass through unchanged. The loop recurses on every value for which
  \<open>typeof value === 'object'\<close> holds, which is so for arrays and dates as well as for
  mappings, and the recursive call builds a plain object from the entries of its argument:
  an array comes back as a mapping from its indices and a date as an empty mapping. For
  \<open>{tags: ['a'], when: new Date()}\<close> the result is \<open>{tags: {0: 'a'}, when: {}}\<close>. The table
  \<open>sanitizers\<close> of the class keeps a date a date (\<open>date: (val) => new Date(val)\<close>), so
  turning it into an empty mapping is not what the class means to do with one.
\<close>

theorem C9_arrays_and_dates_rebuilt:
  "sanitizeObject (VObject [(''tags'', VArray [VString ''a'']), (''when'', VDate DateNow)]) =
     VObject [(''tags'', VObject [(''0'', VString ''a'')]), (''when'', VObject [])] \<and>
   sanitizeObject (VObject [(''tags'', VArray [VString ''a'']), (''when'', VDate DateNow)]) \<noteq>
     VObject [(''tags'', VArray [VString ''a'']), (''when'', VDate DateNow)]"
  by code_simp

text \<open>
  C10. A root identifier whose value in the context is falsy is reported as
  \<open>ObjectNotFound\<close> by \<open>executeMethod\<close> and by \<open>executeProperty\<close>; a first property segment
  whose value is falsy is reported as \<open>PropertyNotFound\<close> by \<open>executeMethod\<close>, while
  \<open>executeProperty\<close> returns that value unless it is \<open>undefined\<close>; and the second property
  segment of a property access is likewise tested against \<open>undefined\<close> alone.
\<close>

theorem C10_falsy_segments_not_found:
  "(getProp rt ctx obj = Inr v \<and> \<not> truthy v \<longrightarrow>
      executeMethod rt ctx obj p s as = (Inl (ObjectNotFound obj), []) \<and>
      executeProperty rt ctx obj p s = Inl (ObjectNotFound obj)) \<and>
   (getProp rt ctx obj = Inr b \<and> truthy b \<and> q \<noteq> [] \<and> getProp rt b q = Inr w \<and> \<not> truthy w \<longrightarrow>
      executeMethod rt ctx obj (Some q) s as = (Inl (PropertyNotFound q obj), []) \<and>
      executeProperty rt ctx obj (Some q) None =
        (if w = VUndefined then Inl (PropertyNotFound q obj) else Inr w)) \<and>
   (getProp rt ctx obj = Inr b \<and> truthy b \<and> q \<noteq> [] \<and> getProp rt b q = Inr m \<and> m \<noteq> VUndefined \<and>
    r \<noteq> [] \<and> getProp rt m r = Inr x \<longrightarrow>
      executeProperty rt ctx obj (Some q) (Some r) =
        (if x = VUndefined then Inl (SubPropertyNotFound r) else Inr x))"
  by (simp add: executeMethod_def executeProperty_def present_def key_text_def)

theorem C10_witness:
  "getProp rt0 ctx0 ''zero'' = Inr (VNumber (Fin 0)) \<and> \<not> truthy (VNumber (Fin 0)) \<and>
   executeMethod rt0 ctx0 ''zero'' None None [] = (Inl (ObjectNotFound ''zero''), []) \<and>
   executeProperty rt0 ctx0 ''zero'' None None = Inl (ObjectNotFound ''zero'') \<and>
   (\<exists>b. getProp rt0 ctx0 ''calendar'' = Inr b \<and> truthy b \<and>
        getProp rt0 b ''count'' = Inr (VNumber (Fin 0)) \<and>
        (\<exists>m. getProp rt0 b ''eventStore'' = Inr m \<and> m \<noteq> VUndefined \<and>
             getProp rt0 m ''size'' = Inr (VNumber (Fin 0)))) \<and>
   executeMethod rt0 ctx0 ''calendar'' (Some ''count'') None [] =
     (Inl (PropertyNotFound ''count'' ''calendar''), []) \<and>
   executeProperty rt0 ctx0 ''calendar'' (Some ''count'') None = Inr (VNumber (Fin 0)) \<and>
   executeProperty rt0 ctx0 ''calendar'' (Some ''eventStore'') (Some ''size'') = Inr (VNumber (Fin 0))"
proof -
  let ?es = "VObject [(''getAll'', VFunction 3), (''size'', VNumber (Fin 0))]"
  let ?cal = "VObject [(''getEvents'', VFunction 0), (''setTimeout'', VFunction 1),
        (''helper'', VFunction 2), (''count'', VNumber (Fin 0)), (''eventStore'', ?es)]"
  have z: "getProp rt0 ctx0 ''zero'' = Inr (VNumber (Fin 0))" by code_simp
  have f: "\<not> truthy (VNumber (Fin 0))" by simp
  have c: "getProp rt0 ctx0 ''calendar'' = Inr ?cal" by code_simp
  have t: "truthy ?cal" by simp
  have n: "getProp rt0 ?cal ''count'' = Inr (VNumber (Fin 0))" by code_simp
  have e: "getProp rt0 ?cal ''eventStore'' = Inr ?es" by code_simp
  have sz: "getProp rt0 ?es ''size'' = Inr (VNumber (Fin 0))" by code_simp
  note a = C10_falsy_segments_not_found
             [of rt0 ctx0 "''zero''" "VNumber (Fin 0)" None None "[]" ?cal "''count''"
                 "VNumber (Fin 0)" ?es "''size''" "VNumber (Fin 0)"]
  note b = C10_falsy_segments_not_found
             [of rt0 ctx0 "''calendar''" "VNumber (Fin 0)" None None "[]" ?cal "''count''"
                 "VNumber (Fin 0)" ?es "''size''" "VNumber (Fin 0)"]
  note d = C10_falsy_segments_not_found
             [of rt0 ctx0 "''calendar''" "VNumber (Fin 0)" None None "[]" ?cal "''eventStore''"
                 "VNumber (Fin 0)" ?es "''size''" "VNumber (Fin 0)"]
  from a z f have one: "executeMethod rt0 ctx0 ''zero'' None None [] = (Inl (ObjectNotFound ''zero''), [])"
    "executeProperty rt0 ctx0 ''zero'' None None = Inl (ObjectNotFound ''zero'')" by simp_all
  from b c t n f have two: "executeMethod rt0 ctx0 ''calendar'' (Some ''count'') None [] =
     (Inl (PropertyNotFound ''count'' ''calendar''), [])"
    "executeProperty rt0 ctx0 ''calendar'' (Some ''count'') None = Inr (VNumber (Fin 0))" by simp_all
  from d c t e sz have three:
    "executeProperty rt0 ctx0 ''calendar'' (Some ''eventStore'') (Some ''size'') = Inr (VNumber (Fin 0))"
    by simp
  from z f c t n e sz one two three show ?thesis by simp
qed

end
